theory Spec2Isabelle
  imports Complex_Main
begin

section \<open>The DDCalc example program (examples/DDCalc\_exampleC.cpp)\<close>

text \<open>
  The program parses its command line, creates six objects in the DDCalc library, reads
  lines of WIMP parameters from standard input in a loop, hands each parameter set to the
  library and prints a report, and finally frees the library's objects.

  The embedding follows the source statement by statement. What the program does to the
  outside world (text written to standard output, calls into the DDCalc library, a call of
  \<open>exit\<close>) is recorded as a list of events, in program order. The library itself is not
  part of the program: a call is recorded with its arguments, and the integers the six
  creation routines return are a parameter of the model.

  A C++ \<open>double\<close> is modelled by the real number the decimal text denotes; rounding to
  the nearest binary64 value is not modelled (the program never computes with the numbers it
  reads, it only copies them), while the range check of the conversion is.
\<close>

subsection \<open>Constants\<close>

type_synonym double = real

definition TYPE_MG :: int where
  "TYPE_MG = 1"

definition TYPE_MFA :: int where
  "TYPE_MFA = 2"

subsection \<open>Formatted input of a \<open>double\<close> from a \<open>std::istringstream\<close>\<close>

text \<open>
  \<open>iss >> x\<close> for a \<open>double\<close> in the classic locale, as the GNU C++ library performs it:
  leading white space is skipped; then the longest prefix of the shape
  \<open>[sign] digits [. digits] [(e|E) [sign] digits]\<close> is taken from the stream (the exponent
  letter only after at least one mantissa digit); the characters taken are converted by
  \<open>strtod\<close>, which must use all of them and must not overflow. Otherwise \<open>failbit\<close> is
  set. Once \<open>failbit\<close> is set every later extraction fails without reading.
\<close>

definition isspace :: "char \<Rightarrow> bool" where
  "isspace c \<longleftrightarrow> c \<in> set [CHR '' '', CHR 0x09, CHR 0x0A, CHR 0x0B, CHR 0x0C, CHR 0x0D]"

definition isdigit :: "char \<Rightarrow> bool" where
  "isdigit c \<longleftrightarrow> c \<in> set ''0123456789''"

definition is_sign :: "char \<Rightarrow> bool" where
  "is_sign c \<longleftrightarrow> c = CHR ''+'' \<or> c = CHR ''-''"

definition is_exp :: "char \<Rightarrow> bool" where
  "is_exp c \<longleftrightarrow> c = CHR ''e'' \<or> c = CHR ''E''"

definition digit_val :: "char \<Rightarrow> nat" where
  "digit_val c = of_char c - 48"

definition digits_val :: "string \<Rightarrow> nat" where
  "digits_val ds = foldl (\<lambda>a c. 10 * a + digit_val c) 0 ds"

text \<open>The characters accumulated for one number, by part.\<close>

record float_text =
  sgn :: string
  ipart :: string
  fpart :: string
  has_exp :: bool
  esgn :: string
  epart :: string

definition take_sign :: "string \<Rightarrow> string \<times> string" where
  "take_sign s = (case s of [] \<Rightarrow> ([], []) | c # r \<Rightarrow> if is_sign c then ([c], r) else ([], s))"

definition take_frac :: "string \<Rightarrow> string \<times> string" where
  "take_frac s =
     (case s of [] \<Rightarrow> ([], [])
      | c # r \<Rightarrow> if c = CHR ''.'' then (takeWhile isdigit r, dropWhile isdigit r) else ([], s))"

definition take_exp :: "bool \<Rightarrow> string \<Rightarrow> (bool \<times> string \<times> string) \<times> string" where
  "take_exp found_mantissa s =
     (case s of [] \<Rightarrow> ((False, [], []), [])
      | c # r \<Rightarrow>
          if is_exp c \<and> found_mantissa
          then (let (es, r1) = take_sign r
                in ((True, es, takeWhile isdigit r1), dropWhile isdigit r1))
          else ((False, [], []), s))"

definition scan_float :: "string \<Rightarrow> float_text \<times> string" where
  "scan_float s =
     (let (sg, s1) = take_sign s;
          ip = takeWhile isdigit s1;
          s2 = dropWhile isdigit s1;
          (fp, s3) = take_frac s2;
          ((he, es, ed), s4) = take_exp (ip \<noteq> [] \<or> fp \<noteq> []) s3
      in (\<lparr>sgn = sg, ipart = ip, fpart = fp, has_exp = he, esgn = es, epart = ed\<rparr>, s4))"

text \<open>\<open>strtod\<close> uses every accumulated character: a mantissa digit, and an exponent digit
  when the exponent letter was taken.\<close>

definition strtod_accepts :: "float_text \<Rightarrow> bool" where
  "strtod_accepts t \<longleftrightarrow> (ipart t \<noteq> [] \<or> fpart t \<noteq> []) \<and> (has_exp t \<longrightarrow> epart t \<noteq> [])"

definition float_value :: "float_text \<Rightarrow> double" where
  "float_value t =
     (let m = real (digits_val (ipart t @ fpart t)) / 10 ^ length (fpart t);
          v = (if has_exp t
               then (if esgn t = ''-'' then m / 10 ^ digits_val (epart t)
                     else m * 10 ^ digits_val (epart t))
               else m)
      in if sgn t = ''-'' then - v else v)"

text \<open>Decimal values of this magnitude or more round to infinity in binary64.\<close>

definition DBL_OVERFLOW :: real where
  "DBL_OVERFLOW = 2 ^ 1024 - 2 ^ 970"

definition num_get_double :: "string \<Rightarrow> double option \<times> string" where
  "num_get_double s =
     (let (t, rest) = scan_float s
      in (if strtod_accepts t \<and> \<bar>float_value t\<bar> < DBL_OVERFLOW then Some (float_value t) else None,
          rest))"

record istringstream =
  buf :: string
  failbit :: bool

text \<open>\<open>iss >> x\<close>: the value stored on success, and the stream afterwards.\<close>

definition extract_double :: "istringstream \<Rightarrow> double option \<times> istringstream" where
  "extract_double iss =
     (if failbit iss then (None, iss)
      else (case num_get_double (dropWhile isspace (buf iss)) of
              (None, rest) \<Rightarrow> (None, \<lparr>buf = rest, failbit = True\<rparr>)
            | (Some v, rest) \<Rightarrow> (Some v, \<lparr>buf = rest, failbit = False\<rparr>)))"

subsection \<open>Events\<close>

text \<open>
  \<open>Cout s\<close> is one statement \<open>std::cout << ... << std::endl\<close>, with \<open>s\<close> the text
  written before the end of the line. \<open>Printf f args\<close> is one call of \<open>printf\<close> with
  the format \<open>f\<close>; an argument is a string literal, the value of a local variable of
  \<open>main\<close> (named; the variables printed were last written by the library, through
  \<open>GetWIMP_mfa\<close> and \<open>GetWIMP_mG\<close>), or the result of a query to the library on a
  detector handle. The six creation events carry the handle the library returned, the other
  library calls their arguments. \<open>Exit n\<close> is the call \<open>exit(n)\<close>.
\<close>

datatype printf_arg =
    Str string
  | Dbl string
  | Events int
  | Background int
  | Signal int
  | LogLikelihood int
  | ScaleToPValue int

datatype event =
    Cout string
  | Printf string "printf_arg list"
  | InitHalo int
  | InitWIMP int
  | XENON100_2012_Init int
  | LUX_2013_Init int
  | SuperCDMS_2014_Init int
  | SIMPLE_2014_Init int
  | SetWIMP_mG int double double double double double
  | SetWIMP_mfa int double double double double double
  | GetWIMP_mfa int
  | GetWIMP_mG int
  | CalcRates int int int
  | FreeAll
  | Exit int

subsection \<open>GetWIMPParams\<close>

text \<open>
  \<open>GetWIMPParams\<close> writes the prompt, reads one line from standard input and parses it
  from a string stream. Its five output parameters \<open>M\<close>, \<open>xpSI\<close>, \<open>xnSI\<close>, \<open>xpSD\<close>,
  \<open>xnSD\<close> are returned as one value when it returns \<open>true\<close>; when it returns \<open>false\<close>
  (\<open>None\<close>) the caller leaves its loop and does not read them again. The third component
  of the result is what remains of standard input.

  \<open>getline\<close> takes the characters up to the first line feed and removes the line feed;
  at the end of the stream the line is empty.
\<close>

type_synonym CouplingSet = "double \<times> double \<times> double \<times> double \<times> double"

definition getline :: "string \<Rightarrow> string \<times> string" where
  "getline cin =
     (takeWhile (\<lambda>c. c \<noteq> CHR 0x0A) cin, drop 1 (dropWhile (\<lambda>c. c \<noteq> CHR 0x0A) cin))"

definition prompt :: "int \<Rightarrow> event list" where
  "prompt type =
     [Cout '''', Cout ''------------------------------------------------------------''] @
     (if type = TYPE_MG then [Cout ''Enter values <M GpSI GnSI GpSD GnSD>:'']
      else if type = TYPE_MFA then [Cout ''Enter values <M fp fn ap an>:'']
      else [])"

definition parse_input_line :: "string \<Rightarrow> CouplingSet option" where
  "parse_input_line line =
     (let (r1, iss1) = extract_double \<lparr>buf = line, failbit = False\<rparr> in
      case r1 of None \<Rightarrow> None | Some M \<Rightarrow>
     (let (r2, iss2) = extract_double iss1 in
      case r2 of None \<Rightarrow> None | Some xpSI \<Rightarrow>
     (let (r3, iss3) = extract_double iss2 in
      case r3 of None \<Rightarrow> Some (M, xpSI, xpSI, 0, 0) | Some xnSI \<Rightarrow>
     (let (r4, iss4) = extract_double iss3 in
      case r4 of None \<Rightarrow> Some (M, xpSI, xnSI, 0, 0) | Some xpSD \<Rightarrow>
     (let (r5, iss5) = extract_double iss4 in
      case r5 of None \<Rightarrow> Some (M, xpSI, xnSI, xpSD, xpSD)
      | Some xnSD \<Rightarrow> Some (M, xpSI, xnSI, xpSD, xnSD))))))"

definition GetWIMPParams :: "int \<Rightarrow> string \<Rightarrow> event list \<times> CouplingSet option \<times> string" where
  "GetWIMPParams type cin =
     (let (line, cin') = getline cin in (prompt type, parse_input_line line, cin'))"

subsection \<open>main\<close>

text \<open>The integers returned by the six creation routines of the library (local variables
  \<open>Halo\<close>, \<open>WIMP\<close>, \<open>XENON\<close>, \<open>LUX\<close>, \<open>SCDMS\<close>, \<open>SIMPLE\<close> of \<open>main\<close>).\<close>

record handles =
  Halo :: int
  WIMP :: int
  XENON :: int
  LUX :: int
  SCDMS :: int
  SIMPLE :: int

definition nl :: string where
  "nl = [CHR 0x0A]"

definition usage :: "event list" where
  "usage =
     [Cout ''Usage:'',
      Cout ''  ./DDCalc_exampleC [--mG|--mfa]'',
      Cout ''where the optional flag specifies the form in which the WIMP-'',
      Cout ''nucleon couplings will be provided (default: --mfa).'']"

definition warning :: "string \<Rightarrow> event" where
  "warning a = Cout (''WARNING:  Ignoring unknown argument '' @ [CHR 0x27] @ a @ [CHR 0x27] @ ''.'')"

text \<open>The loop over \<open>argv[1] .. argv[argc-1]\<close>. The result is the output, the value of
  \<open>type\<close> when the loop was left, and whether it was left through \<open>exit(0)\<close>.\<close>

fun parse_args :: "string list \<Rightarrow> int \<Rightarrow> event list \<times> int \<times> bool" where
  "parse_args [] type = ([], type, False)"
| "parse_args (a # args) type =
     (if a = ''--mG'' then parse_args args TYPE_MG
      else if a = ''--mfa'' then parse_args args TYPE_MFA
      else if a = ''--help'' then (usage @ [Exit 0], type, True)
      else (let (out, r) = parse_args args type in (warning a # out, r)))"

definition session_init :: "handles \<Rightarrow> event list" where
  "session_init lib =
     [InitHalo (Halo lib), InitWIMP (WIMP lib),
      XENON100_2012_Init (XENON lib), LUX_2013_Init (LUX lib),
      SuperCDMS_2014_Init (SCDMS lib), SIMPLE_2014_Init (SIMPLE lib)]"

text \<open>The body of the input loop, in source order: the empty line, the \<open>switch\<close> that sets
  the WIMP parameters, the two calls that read them back, the block that prints the mass
  and the couplings, the four rate calculations, and the table of results. The arguments of
  one \<open>printf\<close> are evaluated in an order C++ leaves open, so the library queries among
  them are recorded inside the \<open>Printf\<close> event. The local \<open>lnp\<close> is computed and never
  used.\<close>

definition set_wimp :: "int \<Rightarrow> handles \<Rightarrow> CouplingSet \<Rightarrow> event list" where
  "set_wimp type lib cs =
     (case cs of (M, xpSI, xnSI, xpSD, xnSD) \<Rightarrow>
        if type = TYPE_MG then [SetWIMP_mG (WIMP lib) M xpSI xnSI xpSD xnSD]
        else if type = TYPE_MFA then [SetWIMP_mfa (WIMP lib) M xpSI xnSI xpSD xnSD]
        else [])"

definition print_wimp :: "event list" where
  "print_wimp =
     [Printf (''%s %- #12.5g'' @ nl) [Str ''WIMP mass [GeV]     '', Dbl ''M''],
      Cout [],
      Printf (''%-28s %11s %11s %11s %11s'' @ nl)
        [Str ''WIMP-nucleon couplings'', Str '' proton-SI '', Str '' neutron-SI'',
         Str '' proton-SD '', Str '' neutron-SD''],
      Printf (''%-28s %- #11.5g %- #11.5g %- #11.5g %- #11.5g'' @ nl)
        [Str ''  G [GeV^-2]'', Dbl ''GpSI'', Dbl ''GnSI'', Dbl ''GpSD'', Dbl ''GnSD''],
      Printf (''%-28s %- #11.5g %- #11.5g %- #11.5g %- #11.5g'' @ nl)
        [Str ''  f & a [GeV^-2,unitless]'', Dbl ''fp'', Dbl ''fn'', Dbl ''ap'', Dbl ''an''],
      Cout []]"

definition calc_rates :: "handles \<Rightarrow> event list" where
  "calc_rates lib =
     [CalcRates (XENON lib) (WIMP lib) (Halo lib),
      CalcRates (LUX lib) (WIMP lib) (Halo lib),
      CalcRates (SCDMS lib) (WIMP lib) (Halo lib),
      CalcRates (SIMPLE lib) (WIMP lib) (Halo lib)]"

definition print_table :: "handles \<Rightarrow> event list" where
  "print_table lib =
     [Printf (''%-20s  %11s  %11s  %11s  %11s'' @ nl)
        [Str [], Str '' XENON 2012'', Str '' LUX 2013  '', Str ''SuCDMS 2014'', Str ''SIMPLE 2014''],
      Printf (''%-20s  % 6i       % 6i       % 6i       % 6i       '' @ nl)
        [Str ''Observed events     '',
         Events (XENON lib), Events (LUX lib), Events (SCDMS lib), Events (SIMPLE lib)],
      Printf (''%-20s  %- #11.5g  %- #11.5g  %- #11.5g  %- #11.5g  '' @ nl)
        [Str ''Expected background '',
         Background (XENON lib), Background (LUX lib), Background (SCDMS lib),
         Background (SIMPLE lib)],
      Printf (''%-20s  %- #11.5g  %- #11.5g  %- #11.5g  %- #11.5g  '' @ nl)
        [Str ''Expected signal     '',
         Signal (XENON lib), Signal (LUX lib), Signal (SCDMS lib), Signal (SIMPLE lib)],
      Printf (''%-20s  %- #11.5g  %- #11.5g  %- #11.5g  %- #11.5g  '' @ nl)
        [Str ''Log-likelihood      '',
         LogLikelihood (XENON lib), LogLikelihood (LUX lib), LogLikelihood (SCDMS lib),
         LogLikelihood (SIMPLE lib)],
      Printf (''%-20s  %- #11.5g  %- #11.5g  %- #11.5g  %- #11.5g  '' @ nl)
        [Str ''Rescaling for 90% CL'',
         ScaleToPValue (XENON lib), ScaleToPValue (LUX lib), ScaleToPValue (SCDMS lib),
         ScaleToPValue (SIMPLE lib)],
      Cout '' * This is the factor by which the cross section must be rescaled to give the desired p-value'']"

definition loop_body :: "int \<Rightarrow> handles \<Rightarrow> CouplingSet \<Rightarrow> event list" where
  "loop_body type lib cs =
     [Cout []] @ set_wimp type lib cs @ [GetWIMP_mfa (WIMP lib), GetWIMP_mG (WIMP lib)] @
     print_wimp @ calc_rates lib @ print_table lib"

text \<open>The loop \<open>while (GetWIMPParams(...)) { ... }\<close>. Standard input is the finite text
  still to be read; at its end \<open>getline\<close> leaves the line empty, which does not parse.
  Every line that parses consumes at least one character, which is why the loop ends.\<close>

function input_loop :: "int \<Rightarrow> handles \<Rightarrow> string \<Rightarrow> event list" where
  "input_loop type lib cin =
     (case GetWIMPParams type cin of
        (out, None, cin') \<Rightarrow> out
      | (out, Some cs, cin') \<Rightarrow> out @ loop_body type lib cs @ input_loop type lib cin')"
  by pat_completeness auto

text \<open>\<open>main\<close>: the events of the run and the exit status of the process. The arguments
  are \<open>argv[1]\<close> onwards.\<close>

definition main :: "handles \<Rightarrow> string list \<Rightarrow> string \<Rightarrow> event list \<times> int" where
  "main lib argv cin =
     (let (out, type, exited) = parse_args (drop 1 argv) TYPE_MFA in
      if exited then (out, 0)
      else (out @ session_init lib @ input_loop type lib cin @ [FreeAll], 0))"

subsection \<open>Vocabulary of the specification\<close>

text \<open>A blank text has white space only; a separator is a non-empty blank text. A numeric
  token with value \<open>v\<close> is a text the conversion reads as \<open>v\<close>, using all of it. A text
  is at a break when it is empty or starts with white space. A text has no number at its
  start when it begins with a character that is not white space and the conversion fails on
  it: it begins with a malformed token.\<close>

definition blank :: "string \<Rightarrow> bool" where
  "blank s \<longleftrightarrow> list_all isspace s"

definition separator :: "string \<Rightarrow> bool" where
  "separator s \<longleftrightarrow> s \<noteq> [] \<and> blank s"

definition numeric_token :: "string \<Rightarrow> double \<Rightarrow> bool" where
  "numeric_token t v \<longleftrightarrow> num_get_double t = (Some v, [])"

definition at_break :: "string \<Rightarrow> bool" where
  "at_break s \<longleftrightarrow> (case s of [] \<Rightarrow> True | c # r \<Rightarrow> isspace c)"

definition no_number :: "string \<Rightarrow> bool" where
  "no_number s \<longleftrightarrow> (case s of [] \<Rightarrow> False | c # r \<Rightarrow> \<not> isspace c \<and> fst (num_get_double s) = None)"




text \<open>A line written as tokens, each followed by its separator; the tokens are numeric
  with the values \<open>vs\<close>.\<close>

fun tokens_text :: "(string \<times> string) list \<Rightarrow> string" where
  "tokens_text [] = []"
| "tokens_text ((t, sp) # ts) = t @ sp @ tokens_text ts"

definition numeric_tokens :: "(string \<times> string) list \<Rightarrow> double list \<Rightarrow> bool" where
  "numeric_tokens ts vs \<longleftrightarrow> list_all2 (\<lambda>(t, sp) v. numeric_token t v \<and> separator sp) ts vs"

text \<open>The number of white-space separated tokens of a text, and the text up to the end of
  its \<open>n\<close>-th token. The flag \<open>at_start\<close> says that the text begins at a token boundary
  (at the start of the line or after white space).\<close>

fun ntok_from :: "bool \<Rightarrow> string \<Rightarrow> nat" where
  "ntok_from at_start [] = 0"
| "ntok_from at_start (c # s) =
     (if isspace c then ntok_from True s
      else (if at_start then 1 else 0) + ntok_from False s)"

definition ntok :: "string \<Rightarrow> nat" where
  "ntok s = ntok_from True s"

fun first_tokens_from :: "nat \<Rightarrow> bool \<Rightarrow> string \<Rightarrow> string" where
  "first_tokens_from n at_start [] = []"
| "first_tokens_from n at_start (c # s) =
     (if isspace c then (if n = 0 then [] else c # first_tokens_from n True s)
      else if at_start then (case n of 0 \<Rightarrow> [] | Suc m \<Rightarrow> c # first_tokens_from m False s)
      else c # first_tokens_from n False s)"

definition first_tokens :: "nat \<Rightarrow> string \<Rightarrow> string" where
  "first_tokens n s = first_tokens_from n True s"

text \<open>The numeric fields of a line: the values that successive extractions deliver until
  the first one fails.\<close>

function numeric_fields :: "istringstream \<Rightarrow> double list" where
  "numeric_fields iss =
     (case extract_double iss of
        (None, iss') \<Rightarrow> []
      | (Some v, iss') \<Rightarrow> v # numeric_fields iss')"
  by pat_completeness auto

definition fields_of_line :: "string \<Rightarrow> double list" where
  "fields_of_line line = numeric_fields \<lparr>buf = line, failbit = False\<rparr>"

text \<open>The cascading default-fill policy in the specification's words, as a function of
  the fields present: mass and first coupling are mandatory; a missing third field is set
  equal to the second and the fourth and fifth to zero; a missing fourth field sets the
  fourth and fifth to zero; a missing fifth field is set equal to the fourth.\<close>

fun default_fill :: "double list \<Rightarrow> CouplingSet option" where
  "default_fill (M # x # y # z # w # others) = Some (M, x, y, z, w)"
| "default_fill [M, x, y, z] = Some (M, x, y, z, z)"
| "default_fill [M, x, y] = Some (M, x, y, 0, 0)"
| "default_fill [M, x] = Some (M, x, x, 0, 0)"
| "default_fill [M] = None"
| "default_fill [] = None"

text \<open>Events that write to standard output, and events that create a library object.\<close>

fun is_output :: "event \<Rightarrow> bool" where
  "is_output (Cout s) = True"
| "is_output (Printf f args) = True"
| "is_output e = False"

fun is_creation :: "event \<Rightarrow> bool" where
  "is_creation (InitHalo h) = True"
| "is_creation (InitWIMP h) = True"
| "is_creation (XENON100_2012_Init h) = True"
| "is_creation (LUX_2013_Init h) = True"
| "is_creation (SuperCDMS_2014_Init h) = True"
| "is_creation (SIMPLE_2014_Init h) = True"
| "is_creation e = False"

section \<open>Properties of the model\<close>

subsection \<open>Termination of the input loop\<close>

lemma num_get_double_Nil: "num_get_double [] = (None, [])"
  by (simp add: num_get_double_def scan_float_def take_sign_def take_frac_def take_exp_def
      strtod_accepts_def)

lemma parse_input_line_Nil: "parse_input_line [] = None"
  by (simp add: parse_input_line_def extract_double_def num_get_double_Nil)

lemma drop1_shorter: "xs \<noteq> [] \<Longrightarrow> length ys \<le> length xs \<Longrightarrow> length (drop 1 ys) < length xs"
  by (cases ys) auto

lemma getline_shorter: "cin \<noteq> [] \<Longrightarrow> length (snd (getline cin)) < length cin"
  unfolding getline_def snd_conv by (rule drop1_shorter) (simp_all add: length_dropWhile_le)

lemma GetWIMPParams_consumes:
  assumes "GetWIMPParams type cin = (out, Some cs, cin')"
  shows "length cin' < length cin"
proof -
  from assms have p: "parse_input_line (fst (getline cin)) = Some cs" and c: "cin' = snd (getline cin)"
    by (auto simp: GetWIMPParams_def split: prod.splits)
  have "cin \<noteq> []"
  proof
    assume "cin = []"
    then have "fst (getline cin) = []" by (simp add: getline_def)
    with p show False by (simp add: parse_input_line_Nil)
  qed
  with c show ?thesis by (simp add: getline_shorter)
qed

termination input_loop
  by (relation "measure (\<lambda>(type, lib, cin). length cin)") (auto dest: GetWIMPParams_consumes [OF sym])

subsection \<open>The conversion reads within one token and uses up at least one character\<close>

lemma isspace_not_float:
  "isspace c \<Longrightarrow> \<not> isdigit c \<and> \<not> is_sign c \<and> \<not> is_exp c \<and> c \<noteq> CHR ''.''"
  by (auto simp: isspace_def isdigit_def is_sign_def is_exp_def)

lemma take_sign_append:
  "isspace c \<Longrightarrow> take_sign (s @ c # w) = (fst (take_sign s), snd (take_sign s) @ c # w)"
  by (cases s) (auto simp: take_sign_def dest: isspace_not_float)

lemma take_frac_append:
  "isspace c \<Longrightarrow> take_frac (s @ c # w) = (fst (take_frac s), snd (take_frac s) @ c # w)"
  by (cases s) (auto simp: take_frac_def takeWhile_tail dropWhile_append3 dest: isspace_not_float)

lemma take_exp_append:
  "isspace c \<Longrightarrow> take_exp m (s @ c # w) = (fst (take_exp m s), snd (take_exp m s) @ c # w)"
  by (cases s)
    (auto simp: take_exp_def take_sign_append takeWhile_tail dropWhile_append3 split: prod.splits
      dest: isspace_not_float)

lemma scan_float_append:
  "isspace c \<Longrightarrow> scan_float (s @ c # w) = (fst (scan_float s), snd (scan_float s) @ c # w)"
  by (simp add: scan_float_def take_sign_append take_frac_append take_exp_append takeWhile_tail
      dropWhile_append3 isspace_not_float Let_def case_prod_beta)

lemma num_get_double_append:
  "isspace c \<Longrightarrow>
   num_get_double (s @ c # w) = (fst (num_get_double s), snd (num_get_double s) @ c # w)"
  by (simp add: num_get_double_def scan_float_append Let_def case_prod_beta)

lemma length_dropWhile_less: "takeWhile P s \<noteq> [] \<Longrightarrow> length (dropWhile P s) < length s"
  by (cases s) (auto simp: less_Suc_eq_le length_dropWhile_le split: if_splits)

lemma length_take_sign: "length (snd (take_sign s)) \<le> length s"
  by (cases s) (auto simp: take_sign_def)

lemma length_take_frac: "length (snd (take_frac s)) \<le> length s"
  by (cases s) (auto simp: take_frac_def le_SucI length_dropWhile_le)

lemma length_take_frac_less: "fst (take_frac s) \<noteq> [] \<Longrightarrow> length (snd (take_frac s)) < length s"
  by (cases s) (auto simp: take_frac_def less_Suc_eq_le length_dropWhile_le split: if_splits)

lemma length_take_exp: "length (snd (take_exp m s)) \<le> length s"
proof (cases s)
  case Nil
  then show ?thesis by (simp add: take_exp_def)
next
  case (Cons c r)
  have "length (dropWhile isdigit (snd (take_sign r))) \<le> length r"
    using length_dropWhile_le [of isdigit "snd (take_sign r)"] length_take_sign [of r] by linarith
  with Cons show ?thesis by (simp add: take_exp_def case_prod_beta)
qed

lemma scan_float_consumes:
  assumes "strtod_accepts (fst (scan_float s))"
  shows "length (snd (scan_float s)) < length s"
proof -
  define s1 where "s1 = snd (take_sign s)"
  define s2 where "s2 = dropWhile isdigit s1"
  define s3 where "s3 = snd (take_frac s2)"
  define m where "m = (takeWhile isdigit s1 \<noteq> [] \<or> fst (take_frac s2) \<noteq> [])"
  have r: "snd (scan_float s) = snd (take_exp m s3)"
    by (simp add: scan_float_def Let_def case_prod_beta s1_def s2_def s3_def m_def)
  from assms have m: m
    by (simp add: scan_float_def Let_def case_prod_beta strtod_accepts_def s1_def s2_def m_def)
  have 1: "length s1 \<le> length s" unfolding s1_def by (rule length_take_sign)
  have 2: "length s2 \<le> length s1" unfolding s2_def by (rule length_dropWhile_le)
  have 3: "length s3 \<le> length s2" unfolding s3_def by (rule length_take_frac)
  have 4: "length (snd (take_exp m s3)) \<le> length s3" by (rule length_take_exp)
  from m have "length s2 < length s1 \<or> length s3 < length s2"
    unfolding m_def s2_def s3_def by (auto dest: length_dropWhile_less length_take_frac_less)
  with 1 2 3 4 show ?thesis unfolding r by linarith
qed

lemma num_get_double_consumes:
  "num_get_double s = (Some v, r) \<Longrightarrow> length r < length s"
  by (auto simp: num_get_double_def case_prod_beta Let_def split: if_splits
      dest: scan_float_consumes)

lemma extract_double_consumes:
  assumes "extract_double iss = (Some v, iss')"
  shows "length (buf iss') < length (buf iss)"
proof -
  from assms obtain r where n: "num_get_double (dropWhile isspace (buf iss)) = (Some v, r)"
    and b: "buf iss' = r"
    by (auto simp: extract_double_def split: if_splits prod.splits option.splits)
  from n have "length r < length (dropWhile isspace (buf iss))"
    by (rule num_get_double_consumes)
  then show ?thesis unfolding b using length_dropWhile_le [of isspace "buf iss"] by linarith
qed

termination numeric_fields
  by (relation "measure (\<lambda>iss. length (buf iss))") (auto dest: extract_double_consumes [OF sym])

subsection \<open>Reading tokens\<close>

declare numeric_fields.simps [simp del]
declare input_loop.simps [simp del]

lemma dropWhile_blank: "blank sp \<Longrightarrow> dropWhile isspace (sp @ s) = dropWhile isspace s"
  by (induction sp) (auto simp: blank_def)

lemma dropWhile_blank_Nil: "blank sp \<Longrightarrow> dropWhile isspace sp = []"
  by (induction sp) (auto simp: blank_def)

lemma num_get_double_space: "isspace c \<Longrightarrow> num_get_double (c # w) = (None, c # w)"
  using num_get_double_append [of c "[]" w] by (simp add: num_get_double_Nil)

lemma numeric_token_Cons: "numeric_token t v \<Longrightarrow> \<exists>d r. t = d # r \<and> \<not> isspace d"
  by (cases t) (auto simp: numeric_token_def num_get_double_Nil num_get_double_space)

lemma num_get_double_token:
  assumes "numeric_token t v" and "at_break rest"
  shows "num_get_double (t @ rest) = (Some v, rest)"
proof (cases rest)
  case Nil
  with assms show ?thesis by (simp add: numeric_token_def)
next
  case (Cons c w)
  with assms have "isspace c" by (simp add: at_break_def)
  with assms Cons show ?thesis by (simp add: numeric_token_def num_get_double_append)
qed

lemma extract_double_token:
  assumes "blank sp" and "numeric_token t v" and "at_break rest"
  shows "extract_double \<lparr>buf = sp @ t @ rest, failbit = False\<rparr> = (Some v, \<lparr>buf = rest, failbit = False\<rparr>)"
proof -
  from assms(2) obtain d r where t: "t = d # r" "\<not> isspace d"
    using numeric_token_Cons by blast
  with assms(1) have "dropWhile isspace (sp @ t @ rest) = t @ rest"
    by (simp add: dropWhile_blank)
  with assms(2,3) show ?thesis
    by (simp add: extract_double_def num_get_double_token)
qed

lemma extract_double_blank:
  "blank sp \<Longrightarrow> extract_double \<lparr>buf = sp, failbit = False\<rparr> = (None, \<lparr>buf = [], failbit = True\<rparr>)"
  by (simp add: extract_double_def dropWhile_blank_Nil num_get_double_Nil)

lemma extract_double_no_number:
  assumes "blank sp" and "no_number bad"
  shows "fst (extract_double \<lparr>buf = sp @ bad, failbit = False\<rparr>) = None"
proof -
  from assms(2) obtain c r where b: "bad = c # r" "\<not> isspace c" "fst (num_get_double bad) = None"
    by (auto simp: no_number_def split: list.splits)
  with assms(1) have "dropWhile isspace (sp @ bad) = bad"
    by (simp add: dropWhile_blank)
  with b(3) show ?thesis
    by (cases "num_get_double bad") (simp add: extract_double_def)
qed

lemma at_break_separator: "separator sp \<Longrightarrow> at_break (sp @ s)"
  by (cases sp) (auto simp: separator_def blank_def at_break_def)

lemma at_break_blank: "blank sp \<Longrightarrow> at_break sp"
  by (cases sp) (auto simp: blank_def at_break_def)

lemma separator_blank: "separator sp \<Longrightarrow> blank sp"
  by (simp add: separator_def)

lemma numeric_fields_token:
  "blank sp \<Longrightarrow> numeric_token t v \<Longrightarrow> at_break rest \<Longrightarrow>
   numeric_fields \<lparr>buf = sp @ t @ rest, failbit = False\<rparr> = v # numeric_fields \<lparr>buf = rest, failbit = False\<rparr>"
  by (subst numeric_fields.simps) (simp add: extract_double_token)

lemma numeric_fields_blank: "blank sp \<Longrightarrow> numeric_fields \<lparr>buf = sp, failbit = False\<rparr> = []"
  by (subst numeric_fields.simps) (simp add: extract_double_blank)

lemma numeric_fields_no_number:
  "blank sp \<Longrightarrow> no_number bad \<Longrightarrow> numeric_fields \<lparr>buf = sp @ bad, failbit = False\<rparr> = []"
  using extract_double_no_number [of sp bad]
  by (subst numeric_fields.simps) (auto split: prod.splits option.splits)

lemma numeric_fields_step:
  "extract_double iss = (r, iss') \<Longrightarrow>
   numeric_fields iss = (case r of None \<Rightarrow> [] | Some v \<Rightarrow> v # numeric_fields iss')"
  by (subst numeric_fields.simps) simp

text \<open>The five conditional reads of GetWIMPParams apply the default-fill policy to the
  numeric fields of the line.\<close>

lemma parse_input_line_default_fill: "parse_input_line line = default_fill (fields_of_line line)"
proof -
  obtain r1 i1 where e1: "extract_double \<lparr>buf = line, failbit = False\<rparr> = (r1, i1)" by force
  obtain r2 i2 where e2: "extract_double i1 = (r2, i2)" by force
  obtain r3 i3 where e3: "extract_double i2 = (r3, i3)" by force
  obtain r4 i4 where e4: "extract_double i3 = (r4, i4)" by force
  obtain r5 i5 where e5: "extract_double i4 = (r5, i5)" by force
  note f = numeric_fields_step [OF e1] numeric_fields_step [OF e2] numeric_fields_step [OF e3]
    numeric_fields_step [OF e4] numeric_fields_step [OF e5]
  show ?thesis
    unfolding parse_input_line_def fields_of_line_def
    by (simp add: e1 e2 e3 e4 e5 f split: option.splits)
qed

lemma GetWIMPParams_fields:
  "GetWIMPParams type cin =
     (prompt type, default_fill (fields_of_line (fst (getline cin))), snd (getline cin))"
  by (simp add: GetWIMPParams_def case_prod_beta parse_input_line_default_fill)

lemma fields_two_tokens:
  assumes "blank sp0" "numeric_token t1 M" "separator sp1" "numeric_token t2 x" "blank sp2"
  shows "fields_of_line (sp0 @ t1 @ sp1 @ t2 @ sp2) = [M, x]"
  using assms
  by (simp add: fields_of_line_def numeric_fields_token numeric_fields_blank at_break_separator
      at_break_blank separator_blank)

lemma numeric_tokens_Nil [simp]: "numeric_tokens [] vs \<longleftrightarrow> vs = []"
  by (simp add: numeric_tokens_def)

lemma numeric_tokens_Cons:
  "numeric_tokens ((t, sp) # ts) vs \<longleftrightarrow>
     (\<exists>v vs'. vs = v # vs' \<and> numeric_token t v \<and> separator sp \<and> numeric_tokens ts vs')"
  by (auto simp: numeric_tokens_def list_all2_Cons1)

lemma numeric_fields_tokens:
  "blank sp0 \<Longrightarrow> numeric_tokens ts vs \<Longrightarrow>
   \<exists>sp. blank sp \<and>
     numeric_fields \<lparr>buf = sp0 @ tokens_text ts @ rest, failbit = False\<rparr> =
       vs @ numeric_fields \<lparr>buf = sp @ rest, failbit = False\<rparr>"
proof (induction ts arbitrary: sp0 vs)
  case Nil
  then show ?case by auto
next
  case (Cons p ts)
  obtain t sp where p: "p = (t, sp)" by (cases p)
  from Cons.prems(2) p obtain v vs' where
    v: "vs = v # vs'" "numeric_token t v" "separator sp" "numeric_tokens ts vs'"
    by (auto simp: numeric_tokens_Cons)
  from v(3) have b: "blank sp" by (rule separator_blank)
  from Cons.IH [OF b v(4)] obtain sp' where
    sp': "blank sp'"
      "numeric_fields \<lparr>buf = sp @ tokens_text ts @ rest, failbit = False\<rparr> =
         vs' @ numeric_fields \<lparr>buf = sp' @ rest, failbit = False\<rparr>"
    by blast
  have "numeric_fields \<lparr>buf = sp0 @ t @ sp @ tokens_text ts @ rest, failbit = False\<rparr> =
      v # numeric_fields \<lparr>buf = sp @ tokens_text ts @ rest, failbit = False\<rparr>"
    using Cons.prems(1) v(2) at_break_separator [OF v(3)] by (rule numeric_fields_token)
  with sp' p v(1) show ?case by auto
qed

lemma fields_tokens_no_number:
  assumes "blank sp0" "numeric_tokens ts vs" "no_number bad"
  shows "fields_of_line (sp0 @ tokens_text ts @ bad) = vs"
  using numeric_fields_tokens [OF assms(1,2), of bad] assms(3)
  by (auto simp: fields_of_line_def numeric_fields_no_number)

lemma fields_tokens_last:
  assumes "blank sp0" "numeric_tokens ts vs" "numeric_token t v" "blank sp"
  shows "fields_of_line (sp0 @ tokens_text ts @ t @ sp) = vs @ [v]"
  using numeric_fields_tokens [OF assms(1,2), of "t @ sp"] assms(3,4)
  by (auto simp: fields_of_line_def numeric_fields_token numeric_fields_blank at_break_blank)

lemma fields_tokens_blank:
  assumes "blank sp0" "numeric_tokens ts vs"
  shows "fields_of_line (sp0 @ tokens_text ts) = vs"
  using numeric_fields_tokens [OF assms(1,2), of "[]"]
  by (auto simp: fields_of_line_def numeric_fields_blank)

lemma blank_Nil: "blank []"
  by (simp add: blank_def)

lemma getline_no_newline: "CHR 0x0A \<notin> set (fst (getline cin))"
  using set_takeWhileD [of "CHR 0x0A" "\<lambda>c. c \<noteq> CHR 0x0A" cin] by (auto simp: getline_def)

lemma getline_whole: "CHR 0x0A \<notin> set l \<Longrightarrow> getline l = (l, [])"
proof -
  assume "CHR 0x0A \<notin> set l"
  then have "\<forall>c\<in>set l. c \<noteq> CHR 0x0A" by auto
  then have t: "takeWhile (\<lambda>c. c \<noteq> CHR 0x0A) l = l"
    and d: "dropWhile (\<lambda>c. c \<noteq> CHR 0x0A) l = []"
    by simp_all
  show ?thesis unfolding getline_def t d by simp
qed

lemma getline_eof: "getline [] = ([], [])"
  by (simp add: getline_def)

lemma fields_blank: "blank line \<Longrightarrow> fields_of_line line = []"
  by (simp add: fields_of_line_def numeric_fields_blank)




subsection \<open>Five reads stay within five tokens\<close>

lemma take_sign_split:
  "\<exists>p. s = p @ snd (take_sign s) \<and> (\<forall>c\<in>set p. \<not> isspace c)"
  by (cases s) (auto simp: take_sign_def is_sign_def isspace_def)

lemma digits_split:
  "\<exists>p. s = p @ dropWhile isdigit s \<and> (\<forall>c\<in>set p. \<not> isspace c)"
proof (intro exI conjI ballI)
  show "s = takeWhile isdigit s @ dropWhile isdigit s" by simp
  fix c assume "c \<in> set (takeWhile isdigit s)"
  then have "isdigit c" by (rule set_takeWhileD [THEN conjunct2])
  then show "\<not> isspace c" using isspace_not_float by blast
qed

lemma take_frac_split:
  "\<exists>p. s = p @ snd (take_frac s) \<and> (\<forall>c\<in>set p. \<not> isspace c)"
proof (cases s)
  case Nil
  then show ?thesis by (simp add: take_frac_def)
next
  case (Cons d r)
  show ?thesis
  proof (cases "d = CHR ''.''")
    case True
    from digits_split [of r] obtain p where "r = p @ dropWhile isdigit r" "\<forall>c\<in>set p. \<not> isspace c"
      by blast
    with Cons True have "s = (d # p) @ snd (take_frac s) \<and> (\<forall>c\<in>set (d # p). \<not> isspace c)"
      by (simp add: take_frac_def isspace_def)
    then show ?thesis by blast
  next
    case False
    with Cons show ?thesis by (simp add: take_frac_def)
  qed
qed

lemma take_exp_split:
  "\<exists>p. s = p @ snd (take_exp m s) \<and> (\<forall>c\<in>set p. \<not> isspace c)"
proof (cases s)
  case Nil
  then show ?thesis by (simp add: take_exp_def)
next
  case (Cons d r)
  show ?thesis
  proof (cases "is_exp d \<and> m")
    case True
    from take_sign_split [of r] obtain p1 where
      p1: "r = p1 @ snd (take_sign r)" "\<forall>c\<in>set p1. \<not> isspace c" by blast
    from digits_split [of "snd (take_sign r)"] obtain p2 where
      p2: "snd (take_sign r) = p2 @ dropWhile isdigit (snd (take_sign r))" "\<forall>c\<in>set p2. \<not> isspace c"
      by blast
    from True have d: "\<not> isspace d" using isspace_not_float by blast
    have "snd (take_exp m s) = dropWhile isdigit (snd (take_sign r))"
      using Cons True by (simp add: take_exp_def case_prod_beta)
    with p1 p2 Cons have "s = (d # p1 @ p2) @ snd (take_exp m s)"
      by (metis append.assoc append_Cons)
    moreover have "\<forall>c\<in>set (d # p1 @ p2). \<not> isspace c"
      using d p1(2) p2(2) by auto
    ultimately show ?thesis by blast
  next
    case False
    with Cons have "snd (take_exp m s) = s" by (auto simp: take_exp_def)
    then show ?thesis by auto
  qed
qed

lemma scan_float_split:
  "\<exists>p. s = p @ snd (scan_float s) \<and> (\<forall>c\<in>set p. \<not> isspace c)"
proof -
  define s1 where "s1 = snd (take_sign s)"
  define s2 where "s2 = dropWhile isdigit s1"
  define s3 where "s3 = snd (take_frac s2)"
  define m where "m = (takeWhile isdigit s1 \<noteq> [] \<or> fst (take_frac s2) \<noteq> [])"
  have r: "snd (scan_float s) = snd (take_exp m s3)"
    by (simp add: scan_float_def Let_def case_prod_beta s1_def s2_def s3_def m_def)
  obtain p1 where p1: "s = p1 @ s1" "\<forall>c\<in>set p1. \<not> isspace c"
    using take_sign_split [of s] unfolding s1_def by blast
  obtain p2 where p2: "s1 = p2 @ s2" "\<forall>c\<in>set p2. \<not> isspace c"
    using digits_split [of s1] unfolding s2_def by blast
  obtain p3 where p3: "s2 = p3 @ s3" "\<forall>c\<in>set p3. \<not> isspace c"
    using take_frac_split [of s2] unfolding s3_def by blast
  obtain p4 where p4: "s3 = p4 @ snd (take_exp m s3)" "\<forall>c\<in>set p4. \<not> isspace c"
    using take_exp_split [of s3 m] by blast
  have "s = (p1 @ p2 @ p3 @ p4) @ snd (scan_float s)"
    unfolding r using p1(1) p2(1) p3(1) p4(1) by (metis append.assoc)
  moreover have "\<forall>c\<in>set (p1 @ p2 @ p3 @ p4). \<not> isspace c"
    using p1(2) p2(2) p3(2) p4(2) by auto
  ultimately show ?thesis by blast
qed

lemma ntok_from_le_True: "ntok_from at_start s \<le> ntok_from True s"
  by (cases s) auto

lemma ntok_from_blank: "blank sp \<Longrightarrow> ntok_from True (sp @ s) = ntok_from True s"
  by (induction sp) (auto simp: blank_def)

lemma ntok_from_blank_0: "blank sp \<Longrightarrow> ntok_from at_start sp = 0"
  by (induction sp arbitrary: at_start) (auto simp: blank_def)

lemma ntok_from_inside: "\<forall>c\<in>set p. \<not> isspace c \<Longrightarrow> ntok_from False (p @ r) = ntok_from False r"
  by (induction p) auto

lemma ntok_from_nonspace:
  assumes "\<forall>c\<in>set p. \<not> isspace c"
  shows "ntok_from at_start (p @ r) \<le> 1 + ntok_from True r"
proof (cases p)
  case Nil
  then show ?thesis using ntok_from_le_True [of at_start r] by simp
next
  case (Cons c q)
  with assms have "\<not> isspace c" and "\<forall>c\<in>set q. \<not> isspace c" by auto
  then have "ntok_from at_start (p @ r) = (if at_start then 1 else 0) + ntok_from False r"
    using Cons by (simp add: ntok_from_inside)
  then show ?thesis using ntok_from_le_True [of False r] by simp
qed

text \<open>An extraction that succeeds uses up at most one token.\<close>

lemma extract_double_ntok:
  assumes "extract_double \<lparr>buf = a, failbit = False\<rparr> = (Some v, i)"
  shows "ntok a \<le> 1 + ntok (buf i) \<and> \<not> failbit i"
proof -
  from assms have b: "buf i = snd (num_get_double (dropWhile isspace a))" and f: "\<not> failbit i"
    by (auto simp: extract_double_def split: prod.splits option.splits)
  have "snd (num_get_double s) = snd (scan_float s)" for s
    by (simp add: num_get_double_def case_prod_beta)
  with b scan_float_split [of "dropWhile isspace a"] obtain p where
    p: "dropWhile isspace a = p @ buf i" "\<forall>c\<in>set p. \<not> isspace c"
    by auto
  have "blank (takeWhile isspace a)"
    by (auto simp: blank_def list_all_iff dest: set_takeWhileD)
  then have "ntok_from True (takeWhile isspace a @ dropWhile isspace a) =
      ntok_from True (dropWhile isspace a)"
    by (rule ntok_from_blank)
  then have "ntok_from True a = ntok_from True (dropWhile isspace a)"
    by simp
  then have "ntok a = ntok_from True (p @ buf i)"
    by (simp add: ntok_def p(1))
  with ntok_from_nonspace [OF p(2), of True "buf i"] f show ?thesis
    by (simp add: ntok_def)
qed

lemma ntok_not_blank: "0 < ntok a \<Longrightarrow> \<not> blank a"
  using ntok_from_blank_0 [of a True] by (auto simp: ntok_def)

lemma dropWhile_not_blank: "\<not> blank a \<Longrightarrow> dropWhile isspace (a @ s) = dropWhile isspace a @ s"
  by (induction a) (auto simp: blank_def)

text \<open>An extraction from a text that is not blank does not look beyond the white space that
  follows the text.\<close>

lemma extract_double_prefix:
  assumes "\<not> blank a" and "isspace c"
    and "extract_double \<lparr>buf = a, failbit = False\<rparr> = (r, i)"
  shows "extract_double \<lparr>buf = a @ c # w, failbit = False\<rparr> =
    (r, \<lparr>buf = buf i @ c # w, failbit = failbit i\<rparr>)"
  using assms
  by (auto simp: extract_double_def dropWhile_not_blank num_get_double_append
      split: prod.splits option.splits)

lemma numeric_fields_prefix:
  "n \<le> ntok a \<Longrightarrow> isspace c \<Longrightarrow>
   take n (numeric_fields \<lparr>buf = a @ c # w, failbit = False\<rparr>) =
   take n (numeric_fields \<lparr>buf = a, failbit = False\<rparr>)"
proof (induction n arbitrary: a)
  case 0
  show ?case by simp
next
  case (Suc n)
  from Suc.prems(1) have nb: "\<not> blank a" by (intro ntok_not_blank) simp
  obtain r i where e: "extract_double \<lparr>buf = a, failbit = False\<rparr> = (r, i)" by force
  note e' = extract_double_prefix [OF nb Suc.prems(2) e, of w]
  show ?case
  proof (cases r)
    case None
    with e e' show ?thesis
      by (simp add: numeric_fields_step [OF e] numeric_fields_step [OF e'])
  next
    case (Some v)
    with e have k: "ntok a \<le> 1 + ntok (buf i)" and f: "\<not> failbit i"
      using extract_double_ntok by auto
    define b where "b = buf i"
    from f have i: "i = \<lparr>buf = b, failbit = False\<rparr>" by (simp add: b_def)
    from k Suc.prems(1) have "n \<le> ntok b" by (simp add: b_def)
    note IH = Suc.IH [OF this Suc.prems(2)]
    have "numeric_fields \<lparr>buf = a, failbit = False\<rparr> =
        v # numeric_fields \<lparr>buf = b, failbit = False\<rparr>"
      using numeric_fields_step [OF e] Some i by simp
    moreover have "numeric_fields \<lparr>buf = a @ c # w, failbit = False\<rparr> =
        v # numeric_fields \<lparr>buf = b @ c # w, failbit = False\<rparr>"
      using numeric_fields_step [OF e'] Some i by simp
    ultimately show ?thesis using IH by simp
  qed
qed

lemma default_fill_take: "default_fill (take 5 vs) = default_fill vs"
  by (cases vs rule: default_fill.cases) simp_all

lemma parse_input_line_prefix:
  assumes "5 \<le> ntok a" and "isspace c"
  shows "parse_input_line (a @ c # w) = parse_input_line a"
proof -
  have "default_fill (take 5 (fields_of_line (a @ c # w))) = default_fill (take 5 (fields_of_line a))"
    unfolding fields_of_line_def using assms by (simp only: numeric_fields_prefix)
  then show ?thesis
    by (simp only: parse_input_line_default_fill default_fill_take)
qed

lemma first_tokens_from_split:
  "n < ntok_from at_start s \<Longrightarrow> (n = 0 \<longrightarrow> \<not> at_start) \<Longrightarrow>
   \<exists>c w. isspace c \<and> s = first_tokens_from n at_start s @ c # w \<and>
     ntok_from at_start (first_tokens_from n at_start s) = n"
proof (induction s arbitrary: n at_start)
  case Nil
  then show ?case by simp
next
  case (Cons d s)
  show ?case
  proof (cases "isspace d")
    case True
    show ?thesis
    proof (cases "n = 0")
      case True
      with \<open>isspace d\<close> show ?thesis by auto
    next
      case False
      from Cons.prems(1) \<open>isspace d\<close> have "n < ntok_from True s" by simp
      from Cons.IH [OF this] False obtain c w where
        "isspace c" "s = first_tokens_from n True s @ c # w"
        "ntok_from True (first_tokens_from n True s) = n"
        by auto
      with False \<open>isspace d\<close> show ?thesis by auto
    qed
  next
    case False
    show ?thesis
    proof (cases at_start)
      case True
      with Cons.prems(2) obtain m where n: "n = Suc m" by (cases n) auto
      from Cons.prems(1) False True n have "m < ntok_from False s" by simp
      from Cons.IH [OF this] obtain c w where
        "isspace c" "s = first_tokens_from m False s @ c # w"
        "ntok_from False (first_tokens_from m False s) = m"
        by auto
      with False True n show ?thesis by auto
    next
      case f: False
      from Cons.prems(1) False f have "n < ntok_from False s" by simp
      from Cons.IH [OF this] obtain c w where
        "isspace c" "s = first_tokens_from n False s @ c # w"
        "ntok_from False (first_tokens_from n False s) = n"
        by auto
      with False f show ?thesis by auto
    qed
  qed
qed

lemma first_tokens_split:
  assumes "0 < n" and "n < ntok s"
  shows "\<exists>c w. isspace c \<and> s = first_tokens n s @ c # w \<and> ntok (first_tokens n s) = n"
  using first_tokens_from_split [of n True s] assms by (simp add: ntok_def first_tokens_def)

lemma parse_input_line_first_tokens:
  assumes "5 < ntok line"
  shows "parse_input_line line = parse_input_line (first_tokens 5 line)"
proof -
  from first_tokens_split [of 5 line] assms obtain c w where
    c: "isspace c" and l: "line = first_tokens 5 line @ c # w" and n: "ntok (first_tokens 5 line) = 5"
    by auto
  from n have "5 \<le> ntok (first_tokens 5 line)" by simp
  from parse_input_line_prefix [OF this c, of w] l show ?thesis by simp
qed

subsection \<open>The input loop and the run of main\<close>

lemma input_loop_stop:
  "default_fill (fields_of_line (fst (getline cin))) = None \<Longrightarrow> input_loop type lib cin = prompt type"
  by (subst input_loop.simps) (simp add: GetWIMPParams_fields)

lemma input_loop_step:
  "default_fill (fields_of_line (fst (getline cin))) = Some cs \<Longrightarrow>
   input_loop type lib cin =
     prompt type @ loop_body type lib cs @ input_loop type lib (snd (getline cin))"
  by (subst input_loop.simps) (simp add: GetWIMPParams_fields)

lemma input_loop_eof: "input_loop type lib [] = prompt type"
  by (rule input_loop_stop) (simp add: getline_eof fields_blank blank_Nil)






lemma main_run:
  "parse_args (drop 1 argv) TYPE_MFA = (out, type, False) \<Longrightarrow>
   main lib argv cin = (out @ session_init lib @ input_loop type lib cin @ [FreeAll], 0)"
  by (simp add: main_def)

subsection \<open>The command line\<close>

lemma parse_args_exited: "snd (snd (parse_args args t)) \<longleftrightarrow> ''--help'' \<in> set args"
  by (induction args t rule: parse_args.induct) (simp_all add: case_prod_beta)

lemma parse_args_no_flag:
  "''--mG'' \<notin> set args \<Longrightarrow> ''--mfa'' \<notin> set args \<Longrightarrow> fst (snd (parse_args args t)) = t"
  by (induction args t rule: parse_args.induct) (auto simp: case_prod_beta)

lemma parse_args_type: "fst (snd (parse_args args t)) \<in> {t, TYPE_MG, TYPE_MFA}"
  by (induction args t rule: parse_args.induct) (auto simp: case_prod_beta)

lemma parse_args_append:
  "''--help'' \<notin> set pre \<Longrightarrow>
   parse_args (pre @ rest) t =
     (fst (parse_args pre t) @ fst (parse_args rest (fst (snd (parse_args pre t)))),
      snd (parse_args rest (fst (snd (parse_args pre t)))))"
  by (induction pre t rule: parse_args.induct) (auto simp: case_prod_beta)

lemma parse_args_only_mG:
  "''--mG'' \<in> set args \<Longrightarrow> ''--mfa'' \<notin> set args \<Longrightarrow> ''--help'' \<notin> set args \<Longrightarrow>
   fst (snd (parse_args args t)) = TYPE_MG"
proof (induction args t rule: parse_args.induct)
  case (1 type)
  then show ?case by simp
next
  case (2 a args type)
  show ?case
  proof (cases "a = ''--mG''")
    case True
    show ?thesis
    proof (cases "''--mG'' \<in> set args")
      case True
      with 2 \<open>a = ''--mG''\<close> show ?thesis by simp
    next
      case False
      from "2.prems"(2) have "''--mfa'' \<notin> set args" by simp
      with False have "fst (snd (parse_args args TYPE_MG)) = TYPE_MG"
        by (rule parse_args_no_flag)
      with True show ?thesis by simp
    qed
  next
    case False
    with 2 show ?thesis by (auto simp: case_prod_beta)
  qed
qed

lemma parse_args_warnings:
  "''--help'' \<notin> set args \<Longrightarrow>
   fst (parse_args args t) = map warning (filter (\<lambda>a. a \<noteq> ''--mG'' \<and> a \<noteq> ''--mfa'') args)"
  by (induction args t rule: parse_args.induct) (auto simp: case_prod_beta)

lemma parse_args_known:
  "snd (parse_args (filter (\<lambda>a. a = ''--mG'' \<or> a = ''--mfa'' \<or> a = ''--help'') args) t) =
   snd (parse_args args t)"
  by (induction args t rule: parse_args.induct) (simp_all add: case_prod_beta)

lemma parse_args_help:
  "''--help'' \<in> set args \<Longrightarrow>
   parse_args args t =
     (map warning (filter (\<lambda>a. a \<noteq> ''--mG'' \<and> a \<noteq> ''--mfa'') (takeWhile (\<lambda>a. a \<noteq> ''--help'') args)) @
      usage @ [Exit 0],
      fst (snd (parse_args (takeWhile (\<lambda>a. a \<noteq> ''--help'') args) t)), True)"
  by (induction args t rule: parse_args.induct) (auto simp: case_prod_beta)

subsection \<open>What the loop body emits\<close>

lemma input_loop_success:
  "GetWIMPParams type cin = (out, Some cs, cin') \<Longrightarrow>
   input_loop type lib cin = out @ loop_body type lib cs @ input_loop type lib cin'"
  by (subst input_loop.simps) simp

lemma print_wimp_output: "\<forall>e\<in>set print_wimp. is_output e"
  by (simp add: print_wimp_def)

lemma print_table_output: "\<forall>e\<in>set (print_table lib). is_output e"
  by (simp add: print_table_def)

lemma CalcRates_notin_prompt: "CalcRates d w h \<notin> set (prompt type)"
  by (simp add: prompt_def)

lemma CalcRates_in_loop_body:
  "CalcRates d w h \<in> set (loop_body type lib cs) \<Longrightarrow>
   w = WIMP lib \<and> h = Halo lib \<and> d \<in> {XENON lib, LUX lib, SCDMS lib, SIMPLE lib}"
  by (auto simp: loop_body_def set_wimp_def print_wimp_def calc_rates_def print_table_def
      split: prod.splits if_splits)

lemma CalcRates_in_input_loop:
  "CalcRates d w h \<in> set (input_loop type lib cin) \<Longrightarrow>
   w = WIMP lib \<and> h = Halo lib \<and> d \<in> {XENON lib, LUX lib, SCDMS lib, SIMPLE lib}"
proof (induction type lib cin rule: input_loop.induct)
  case (1 type lib cin)
  show ?case
  proof (cases "default_fill (fields_of_line (fst (getline cin)))")
    case None
    with "1.prems" show ?thesis by (simp add: input_loop_stop CalcRates_notin_prompt)
  next
    case (Some cs)
    have "GetWIMPParams type cin = (prompt type, Some cs, snd (getline cin))"
      by (simp add: GetWIMPParams_fields Some)
    note IH = "1.IH" [OF this [symmetric] refl refl]
    from "1.prems" Some have "CalcRates d w h \<in> set (loop_body type lib cs) \<or>
        CalcRates d w h \<in> set (input_loop type lib (snd (getline cin)))"
      by (simp add: input_loop_step CalcRates_notin_prompt)
    with IH CalcRates_in_loop_body show ?thesis by blast
  qed
qed

lemma no_creation_prompt: "filter is_creation (prompt type) = []"
  by (simp add: prompt_def)

lemma no_creation_loop_body: "filter is_creation (loop_body type lib cs) = []"
  by (simp add: loop_body_def set_wimp_def print_wimp_def calc_rates_def print_table_def
      split: prod.splits)

lemma no_creation_input_loop: "filter is_creation (input_loop type lib cin) = []"
proof (induction type lib cin rule: input_loop.induct)
  case (1 type lib cin)
  show ?case
  proof (cases "default_fill (fields_of_line (fst (getline cin)))")
    case None
    then show ?thesis by (simp add: input_loop_stop no_creation_prompt)
  next
    case (Some cs)
    have "GetWIMPParams type cin = (prompt type, Some cs, snd (getline cin))"
      by (simp add: GetWIMPParams_fields Some)
    from "1.IH" [OF this [symmetric] refl refl] Some show ?thesis
      by (simp add: input_loop_step no_creation_prompt no_creation_loop_body)
  qed
qed

lemma output_not_creation: "is_output e \<Longrightarrow> \<not> is_creation e"
  by (cases e) simp_all

lemma append_eq_later:
  "xs @ ys = pre @ e # post \<Longrightarrow> e \<notin> set xs \<Longrightarrow> set xs \<subseteq> set pre \<and> e \<in> set ys"
  by (induction xs arbitrary: pre) (auto simp: Cons_eq_append_conv)

subsection \<open>Tokens that are not numbers\<close>





















lemma fields_tokens_extra:
  assumes "blank sp0" "numeric_tokens ts vs"
  shows "\<exists>others. fields_of_line (sp0 @ tokens_text ts @ extra) = vs @ others"
  using numeric_fields_tokens [OF assms(1,2), of extra]
  by (auto simp: fields_of_line_def)

subsection \<open>Concrete tokens and lines\<close>

lemmas scan_defs = num_get_double_def scan_float_def take_sign_def take_frac_def take_exp_def
  strtod_accepts_def float_value_def digits_val_def digit_val_def DBL_OVERFLOW_def
  isspace_def isdigit_def is_sign_def is_exp_def

lemma separator_space: "separator '' ''"
  by (simp add: separator_def blank_def isspace_def)

lemma token_100: "numeric_token ''100'' 100"
  by (simp add: numeric_token_def scan_defs)

lemma token_4em9: "numeric_token ''4.0e-9'' (4 / 10 ^ 9)"
  by (simp add: numeric_token_def scan_defs)

lemma getline_100_4em9: "getline ''100 4.0e-9'' = (''100 4.0e-9'', [])"
  by (simp add: getline_def)

lemma token_1: "numeric_token ''1'' 1"
  by (simp add: numeric_token_def scan_defs)

lemma token_2: "numeric_token ''2'' 2"
  by (simp add: numeric_token_def scan_defs)

lemma token_3: "numeric_token ''3'' 3"
  by (simp add: numeric_token_def scan_defs)

lemma token_4: "numeric_token ''4'' 4"
  by (simp add: numeric_token_def scan_defs)

lemma token_5: "numeric_token ''5'' 5"
  by (simp add: numeric_token_def scan_defs)




lemma tokens_123: "numeric_tokens [(''1'', '' ''), (''2'', '' ''), (''3'', '' '')] [1, 2, 3]"
  by (simp add: numeric_tokens_def token_1 token_2 token_3 separator_space)

lemma tokens_1234: "numeric_tokens [(''1'', '' ''), (''2'', '' ''), (''3'', '' ''), (''4'', '' '')] [1, 2, 3, 4]"
  by (simp add: numeric_tokens_def token_1 token_2 token_3 token_4 separator_space)







lemma no_number_x_line: "no_number ''x 2 3 4 5 6''"
  by (simp add: no_number_def scan_defs)

lemma input_loop_100_4:
  "input_loop TYPE_MFA lib ''100 4'' =
     prompt TYPE_MFA @ loop_body TYPE_MFA lib (100, 4, 4, 0, 0) @ prompt TYPE_MFA"
proof -
  have g: "getline ''100 4'' = (''100 4'', [])"
    by (simp add: getline_def)
  have "fields_of_line (fst (getline ''100 4'')) = [100, 4]"
    using fields_two_tokens [OF blank_Nil token_100 separator_space token_4 blank_Nil]
    by (simp add: g)
  then have "default_fill (fields_of_line (fst (getline ''100 4''))) = Some (100, 4, 4, 0, 0)"
    by simp
  from input_loop_step [OF this, of TYPE_MFA lib] show ?thesis
    by (simp add: g input_loop_eof)
qed

section \<open>The claims\<close>




text \<open>
  Claim C2. For every input line with exactly two parseable numeric fields \<open>M\<close> and \<open>x\<close>,
  GetWIMPParams succeeds and the resulting CouplingSet is \<open>(M, x, x, 0, 0)\<close>: the third
  field is set equal to the second, the fourth and fifth are set to zero. The line is the
  one \<open>getline\<close> takes from standard input. The first part takes the numeric fields of
  the line to be the values the extractions deliver until the first one fails, whatever
  makes it fail; the second part is the line written out as two numeric tokens with white
  space around them.
\<close>

theorem GetWIMPParams_two_fields:
  "(fields_of_line (fst (getline cin)) = [M, x] \<longrightarrow>
      GetWIMPParams type cin = (prompt type, Some (M, x, x, 0, 0), snd (getline cin))) \<and>
   (fst (getline cin) = sp0 @ t1 @ sp1 @ t2 @ sp2 \<and> blank sp0 \<and> numeric_token t1 M \<and>
    separator sp1 \<and> numeric_token t2 x \<and> blank sp2 \<longrightarrow>
      GetWIMPParams type cin = (prompt type, Some (M, x, x, 0, 0), snd (getline cin)))"
proof -
  have "GetWIMPParams type cin = (prompt type, Some (M, x, x, 0, 0), snd (getline cin))"
    if "fields_of_line (fst (getline cin)) = [M, x]"
    using that by (simp add: GetWIMPParams_fields)
  moreover have "fields_of_line (fst (getline cin)) = [M, x]"
    if "fst (getline cin) = sp0 @ t1 @ sp1 @ t2 @ sp2" "blank sp0" "numeric_token t1 M"
      "separator sp1" "numeric_token t2 x" "blank sp2"
    using that by (simp add: fields_two_tokens)
  ultimately show ?thesis by blast
qed

theorem GetWIMPParams_two_fields_witness:
  "fst (getline ''100 4.0e-9'') = [] @ ''100'' @ '' '' @ ''4.0e-9'' @ [] \<and>
   numeric_token ''100'' 100 \<and> numeric_token ''4.0e-9'' (4 / 10 ^ 9) \<and>
   fields_of_line (fst (getline ''100 4.0e-9'')) = [100, 4 / 10 ^ 9] \<and>
   GetWIMPParams TYPE_MFA ''100 4.0e-9'' =
     (prompt TYPE_MFA, Some (100, 4 / 10 ^ 9, 4 / 10 ^ 9, 0, 0), [])"
proof -
  have s: "fst (getline ''100 4.0e-9'') = [] @ ''100'' @ '' '' @ ''4.0e-9'' @ []"
    by (simp add: getline_100_4em9)
  have f: "fields_of_line (fst (getline ''100 4.0e-9'')) = [100, 4 / 10 ^ 9]"
    using fields_two_tokens [OF blank_Nil token_100 separator_space token_4em9 blank_Nil]
    by (simp add: getline_100_4em9)
  from GetWIMPParams_two_fields [of "''100 4.0e-9''" 100 "4 / 10 ^ 9" TYPE_MFA
      "[]" "''100''" "'' ''" "''4.0e-9''" "[]"] s blank_Nil token_100 separator_space token_4em9
  have "GetWIMPParams TYPE_MFA ''100 4.0e-9'' =
     (prompt TYPE_MFA, Some (100, 4 / 10 ^ 9, 4 / 10 ^ 9, 0, 0), snd (getline ''100 4.0e-9''))"
    by blast
  with s f token_100 token_4em9 show ?thesis
    by (simp add: getline_100_4em9)
qed

text \<open>
  Claim C3. For every input line with exactly four parseable numeric fields \<open>M\<close>, \<open>x\<close>,
  \<open>y\<close>, \<open>z\<close>, GetWIMPParams succeeds with \<open>(M, x, y, z, z)\<close>: the missing fifth field
  is set equal to the fourth. For a line with all five fields the result is the five fields
  as read. Both are stated for the numeric fields that the extractions deliver, and for the
  line written out as numeric tokens: three, or four, each followed by a separator, then
  the last one and trailing white space.
\<close>

theorem GetWIMPParams_four_five_fields:
  "(fields_of_line (fst (getline cin)) = [M, x, y, z] \<longrightarrow>
      GetWIMPParams type cin = (prompt type, Some (M, x, y, z, z), snd (getline cin))) \<and>
   (fields_of_line (fst (getline cin)) = [M, x, y, z, w] \<longrightarrow>
      GetWIMPParams type cin = (prompt type, Some (M, x, y, z, w), snd (getline cin))) \<and>
   (fst (getline cin) = sp0 @ tokens_text ts @ t @ sp \<and> blank sp0 \<and>
    numeric_tokens ts [M, x, y] \<and> numeric_token t z \<and> blank sp \<longrightarrow>
      GetWIMPParams type cin = (prompt type, Some (M, x, y, z, z), snd (getline cin))) \<and>
   (fst (getline cin) = sp0 @ tokens_text ts @ t @ sp \<and> blank sp0 \<and>
    numeric_tokens ts [M, x, y, z] \<and> numeric_token t w \<and> blank sp \<longrightarrow>
      GetWIMPParams type cin = (prompt type, Some (M, x, y, z, w), snd (getline cin)))"
proof -
  have 4: "GetWIMPParams type cin = (prompt type, Some (M, x, y, z, z), snd (getline cin))"
    if "fields_of_line (fst (getline cin)) = [M, x, y, z]"
    using that by (simp add: GetWIMPParams_fields)
  have 5: "GetWIMPParams type cin = (prompt type, Some (M, x, y, z, w), snd (getline cin))"
    if "fields_of_line (fst (getline cin)) = [M, x, y, z, w]"
    using that by (simp add: GetWIMPParams_fields)
  have t4: "fields_of_line (fst (getline cin)) = [M, x, y, z]"
    if "fst (getline cin) = sp0 @ tokens_text ts @ t @ sp" "blank sp0"
      "numeric_tokens ts [M, x, y]" "numeric_token t z" "blank sp"
    using that by (simp add: fields_tokens_last)
  have t5: "fields_of_line (fst (getline cin)) = [M, x, y, z, w]"
    if "fst (getline cin) = sp0 @ tokens_text ts @ t @ sp" "blank sp0"
      "numeric_tokens ts [M, x, y, z]" "numeric_token t w" "blank sp"
    using that by (simp add: fields_tokens_last)
  from 4 5 t4 t5 show ?thesis by blast
qed

theorem GetWIMPParams_four_five_fields_witness:
  "fields_of_line (fst (getline ''1 2 3 4'')) = [1, 2, 3, 4] \<and>
   GetWIMPParams TYPE_MG ''1 2 3 4'' = (prompt TYPE_MG, Some (1, 2, 3, 4, 4), []) \<and>
   fields_of_line (fst (getline ''1 2 3 4 5'')) = [1, 2, 3, 4, 5] \<and>
   GetWIMPParams TYPE_MG ''1 2 3 4 5'' = (prompt TYPE_MG, Some (1, 2, 3, 4, 5), [])"
proof -
  have g4: "getline ''1 2 3 4'' = (''1 2 3 4'', [])" and g5: "getline ''1 2 3 4 5'' = (''1 2 3 4 5'', [])"
    by (simp_all add: getline_def)
  have f4: "fields_of_line (fst (getline ''1 2 3 4'')) = [1, 2, 3, 4]"
    using fields_tokens_last [OF blank_Nil tokens_123 token_4 blank_Nil] by (simp add: g4)
  have f5: "fields_of_line (fst (getline ''1 2 3 4 5'')) = [1, 2, 3, 4, 5]"
    using fields_tokens_last [OF blank_Nil tokens_1234 token_5 blank_Nil] by (simp add: g5)
  from GetWIMPParams_four_five_fields [where cin = "''1 2 3 4''" and type = TYPE_MG
      and M = 1 and x = 2 and y = 3 and z = 4] f4
  have a: "GetWIMPParams TYPE_MG ''1 2 3 4'' =
      (prompt TYPE_MG, Some (1, 2, 3, 4, 4), snd (getline ''1 2 3 4''))"
    by blast
  from GetWIMPParams_four_five_fields [where cin = "''1 2 3 4 5''" and type = TYPE_MG
      and M = 1 and x = 2 and y = 3 and z = 4 and w = 5] f5
  have b: "GetWIMPParams TYPE_MG ''1 2 3 4 5'' =
      (prompt TYPE_MG, Some (1, 2, 3, 4, 5), snd (getline ''1 2 3 4 5''))"
    by blast
  from a b f4 f5 show ?thesis by (simp add: g4 g5)
qed



text \<open>
  Claim C5. The argument vector is \<open>argv\<close>; its arguments are \<open>drop 1 argv\<close>, and
  parsing them ends either at the end of the vector or in \<open>exit(0)\<close> at the first
  \<open>--help\<close> (\<open>exited\<close>). For every vector whose arguments contain \<open>--mG\<close> and not
  \<open>--mfa\<close>, the mode after argument parsing is \<open>TYPE_MG\<close>; for every vector whose
  arguments contain neither, it is \<open>TYPE_MFA\<close>. Unrecognized tokens do not change the
  mode (parsing the recognized tokens alone gives the same mode and the same exit), and
  each produces one line of output, the warning \<open>WARNING:  Ignoring unknown argument\<close>
  with the token in single quotes and a full stop. After parsing, the input loop of
  \<open>main\<close> runs in that mode.
\<close>

theorem mode_after_argument_parsing:
  assumes "parse_args (drop 1 argv) TYPE_MFA = (out, type, exited)"
  shows "(exited \<longleftrightarrow> ''--help'' \<in> set (drop 1 argv)) \<and>
    (''--mG'' \<in> set (drop 1 argv) \<and> ''--mfa'' \<notin> set (drop 1 argv) \<longrightarrow> exited \<or> type = TYPE_MG) \<and>
    (''--mG'' \<notin> set (drop 1 argv) \<and> ''--mfa'' \<notin> set (drop 1 argv) \<longrightarrow> type = TYPE_MFA) \<and>
    snd (parse_args (filter (\<lambda>a. a = ''--mG'' \<or> a = ''--mfa'' \<or> a = ''--help'') (drop 1 argv)) TYPE_MFA) =
      (type, exited) \<and>
    (\<not> exited \<longrightarrow>
      out =
        map (\<lambda>a. Cout (''WARNING:  Ignoring unknown argument '' @ [CHR 0x27] @ a @ [CHR 0x27] @ ''.''))
          (filter (\<lambda>a. a \<noteq> ''--mG'' \<and> a \<noteq> ''--mfa'') (drop 1 argv)) \<and>
      main lib argv cin = (out @ session_init lib @ input_loop type lib cin @ [FreeAll], 0)) \<and>
    (a \<noteq> ''--mG'' \<and> a \<noteq> ''--mfa'' \<and> a \<noteq> ''--help'' \<longrightarrow>
      parse_args (a # args) t =
        (Cout (''WARNING:  Ignoring unknown argument '' @ [CHR 0x27] @ a @ [CHR 0x27] @ ''.'') #
         fst (parse_args args t), snd (parse_args args t)))"
proof -
  from assms have o: "out = fst (parse_args (drop 1 argv) TYPE_MFA)"
    and t: "type = fst (snd (parse_args (drop 1 argv) TYPE_MFA))"
    and e: "exited = snd (snd (parse_args (drop 1 argv) TYPE_MFA))"
    by simp_all
  have 1: "exited \<longleftrightarrow> ''--help'' \<in> set (drop 1 argv)"
    unfolding e by (rule parse_args_exited)
  have 2: "exited \<or> type = TYPE_MG"
    if "''--mG'' \<in> set (drop 1 argv)" "''--mfa'' \<notin> set (drop 1 argv)"
    using that 1 parse_args_only_mG [of "drop 1 argv" TYPE_MFA] unfolding t by blast
  have 3: "type = TYPE_MFA" if "''--mG'' \<notin> set (drop 1 argv)" "''--mfa'' \<notin> set (drop 1 argv)"
    unfolding t using that by (rule parse_args_no_flag)
  have 4: "snd (parse_args (filter (\<lambda>a. a = ''--mG'' \<or> a = ''--mfa'' \<or> a = ''--help'') (drop 1 argv)) TYPE_MFA) =
      (type, exited)"
    using assms by (simp add: parse_args_known)
  have w: "warning = (\<lambda>a. Cout (''WARNING:  Ignoring unknown argument '' @ [CHR 0x27] @ a @ [CHR 0x27] @ ''.''))"
    by (rule ext) (simp add: warning_def)
  have 5: "out =
        map (\<lambda>a. Cout (''WARNING:  Ignoring unknown argument '' @ [CHR 0x27] @ a @ [CHR 0x27] @ ''.''))
          (filter (\<lambda>a. a \<noteq> ''--mG'' \<and> a \<noteq> ''--mfa'') (drop 1 argv))"
    if "\<not> exited"
    unfolding o w [symmetric] using that 1 by (intro parse_args_warnings) simp
  have 6: "main lib argv cin = (out @ session_init lib @ input_loop type lib cin @ [FreeAll], 0)"
    if "\<not> exited"
    using that assms by (simp add: main_def)
  have 7: "parse_args (a # args) t =
        (Cout (''WARNING:  Ignoring unknown argument '' @ [CHR 0x27] @ a @ [CHR 0x27] @ ''.'') #
         fst (parse_args args t), snd (parse_args args t))"
    if "a \<noteq> ''--mG''" "a \<noteq> ''--mfa''" "a \<noteq> ''--help''"
    using that by (simp add: case_prod_beta warning_def)
  from 1 2 3 4 5 6 7 show ?thesis by blast
qed

theorem mode_after_argument_parsing_witness:
  "parse_args (drop 1 [''DDCalc_exampleC'', ''-v'', ''--mG'']) TYPE_MFA = ([Cout (''WARNING:  Ignoring unknown argument '' @ [CHR 0x27] @ ''-v'' @ [CHR 0x27] @ ''.'')], TYPE_MG, False) \<and>
   ''--mG'' \<in> set (drop 1 [''DDCalc_exampleC'', ''-v'', ''--mG'']) \<and>
   ''--mfa'' \<notin> set (drop 1 [''DDCalc_exampleC'', ''-v'', ''--mG'']) \<and>
   main \<lparr>Halo = 1, WIMP = 2, XENON = 3, LUX = 4, SCDMS = 5, SIMPLE = 6\<rparr>
     [''DDCalc_exampleC'', ''-v'', ''--mG''] [] =
     ([Cout (''WARNING:  Ignoring unknown argument '' @ [CHR 0x27] @ ''-v'' @ [CHR 0x27] @ ''.'')] @ session_init \<lparr>Halo = 1, WIMP = 2, XENON = 3, LUX = 4, SCDMS = 5, SIMPLE = 6\<rparr> @
      input_loop TYPE_MG \<lparr>Halo = 1, WIMP = 2, XENON = 3, LUX = 4, SCDMS = 5, SIMPLE = 6\<rparr> [] @ [FreeAll], 0)"
proof -
  have p: "parse_args (drop 1 [''DDCalc_exampleC'', ''-v'', ''--mG'']) TYPE_MFA =
      ([Cout (''WARNING:  Ignoring unknown argument '' @ [CHR 0x27] @ ''-v'' @ [CHR 0x27] @ ''.'')], TYPE_MG, False)"
    by (simp add: warning_def)
  have s: "''--mG'' \<in> set (drop 1 [''DDCalc_exampleC'', ''-v'', ''--mG''])"
    "''--mfa'' \<notin> set (drop 1 [''DDCalc_exampleC'', ''-v'', ''--mG''])"
    by simp_all
  note m = mode_after_argument_parsing [OF p,
      of "\<lparr>Halo = 1, WIMP = 2, XENON = 3, LUX = 4, SCDMS = 5, SIMPLE = 6\<rparr>" "[]"]
  from m have "main \<lparr>Halo = 1, WIMP = 2, XENON = 3, LUX = 4, SCDMS = 5, SIMPLE = 6\<rparr>
     [''DDCalc_exampleC'', ''-v'', ''--mG''] [] =
     ([Cout (''WARNING:  Ignoring unknown argument '' @ [CHR 0x27] @ ''-v'' @ [CHR 0x27] @ ''.'')] @ session_init \<lparr>Halo = 1, WIMP = 2, XENON = 3, LUX = 4, SCDMS = 5, SIMPLE = 6\<rparr> @
      input_loop TYPE_MG \<lparr>Halo = 1, WIMP = 2, XENON = 3, LUX = 4, SCDMS = 5, SIMPLE = 6\<rparr> [] @ [FreeAll], 0)"
    by blast
  with p s show ?thesis by blast
qed

text \<open>
  Claim C6, as amended. The claim says the usage message has two lines; it has four. If any
  command-line argument equals \<open>--help\<close>, the program prints the four-line usage message
  (after one warning for each unknown argument that stands before the first \<open>--help\<close>)
  and terminates at once with exit status 0. Nothing else happens: every event of the run
  is a line of output or the exit itself, so no handle is created, no input is read and
  \<open>FreeAll\<close> is not called.
\<close>

theorem help_prints_usage_and_exits:
  assumes "''--help'' \<in> set (drop 1 argv)"
  shows "main lib argv cin =
      (map warning (filter (\<lambda>a. a \<noteq> ''--mG'' \<and> a \<noteq> ''--mfa'')
         (takeWhile (\<lambda>a. a \<noteq> ''--help'') (drop 1 argv))) @
       [Cout ''Usage:'',
        Cout ''  ./DDCalc_exampleC [--mG|--mfa]'',
        Cout ''where the optional flag specifies the form in which the WIMP-'',
        Cout ''nucleon couplings will be provided (default: --mfa).'',
        Exit 0], 0) \<and>
    (\<forall>e\<in>set (fst (main lib argv cin)). is_output e \<or> e = Exit 0)"
proof -
  have m: "main lib argv cin =
      (map warning (filter (\<lambda>a. a \<noteq> ''--mG'' \<and> a \<noteq> ''--mfa'')
         (takeWhile (\<lambda>a. a \<noteq> ''--help'') (drop 1 argv))) @ usage @ [Exit 0], 0)"
    unfolding main_def parse_args_help [OF assms] by simp
  then have "\<forall>e\<in>set (fst (main lib argv cin)). is_output e \<or> e = Exit 0"
    by (auto simp: usage_def warning_def)
  with m show ?thesis by (simp add: usage_def)
qed

theorem help_prints_usage_and_exits_witness:
  "''--help'' \<in> set (drop 1 [''DDCalc_exampleC'', ''--mG'', ''-v'', ''--help'', ''--mfa'']) \<and>
   main \<lparr>Halo = 1, WIMP = 2, XENON = 3, LUX = 4, SCDMS = 5, SIMPLE = 6\<rparr>
     [''DDCalc_exampleC'', ''--mG'', ''-v'', ''--help'', ''--mfa''] ''100 4.0e-9'' =
     ([warning ''-v'',
       Cout ''Usage:'',
       Cout ''  ./DDCalc_exampleC [--mG|--mfa]'',
       Cout ''where the optional flag specifies the form in which the WIMP-'',
       Cout ''nucleon couplings will be provided (default: --mfa).'',
       Exit 0], 0)"
proof -
  have h: "''--help'' \<in> set (drop 1 [''DDCalc_exampleC'', ''--mG'', ''-v'', ''--help'', ''--mfa''])"
    by simp
  from help_prints_usage_and_exits [OF h] h show ?thesis by simp
qed

text \<open>
  The claim C6 as stated fails on the argument vector \<open>DDCalc_exampleC --help\<close>: the run
  writes four lines before it exits, not two.
\<close>

theorem help_usage_four_lines_counterexample:
  "main \<lparr>Halo = 1, WIMP = 2, XENON = 3, LUX = 4, SCDMS = 5, SIMPLE = 6\<rparr>
     [''DDCalc_exampleC'', ''--help''] [] =
     ([Cout ''Usage:'',
       Cout ''  ./DDCalc_exampleC [--mG|--mfa]'',
       Cout ''where the optional flag specifies the form in which the WIMP-'',
       Cout ''nucleon couplings will be provided (default: --mfa).'',
       Exit 0], 0) \<and>
   length (filter is_output (fst (main \<lparr>Halo = 1, WIMP = 2, XENON = 3, LUX = 4, SCDMS = 5, SIMPLE = 6\<rparr>
     [''DDCalc_exampleC'', ''--help''] []))) \<noteq> 2"
  by (simp add: main_def usage_def)

text \<open>
  Claim C7, as amended. The claim places all four rate calculations before the printing of
  the report; the first block of the report is printed before them. In every iteration of
  the input loop with a successfully parsed CouplingSet, in a mode that argument parsing can
  deliver, the program first pushes the set into the WIMP handle with the setter of the
  active mode (\<open>SetWIMP_mG\<close> in raw mode, \<open>SetWIMP_mfa\<close> in standard mode), then
  reads back both representations (\<open>GetWIMP_mfa\<close>, then \<open>GetWIMP_mG\<close>), then prints
  the WIMP mass and the two rows of couplings, then calls \<open>CalcRates\<close> once for each of
  the four detector handles (XENON, LUX, SCDMS, SIMPLE, in this order) with the WIMP and
  Halo handles, and only then prints the table of detector results. Both printed blocks
  consist of output alone.
\<close>

theorem loop_iteration_call_order:
  assumes "GetWIMPParams type cin = (out, Some (M, xpSI, xnSI, xpSD, xnSD), cin')"
    and "type = TYPE_MG \<or> type = TYPE_MFA"
  shows "input_loop type lib cin =
      out @
      [Cout [],
       (if type = TYPE_MG then SetWIMP_mG (WIMP lib) M xpSI xnSI xpSD xnSD
        else SetWIMP_mfa (WIMP lib) M xpSI xnSI xpSD xnSD),
       GetWIMP_mfa (WIMP lib), GetWIMP_mG (WIMP lib)] @
      print_wimp @
      [CalcRates (XENON lib) (WIMP lib) (Halo lib), CalcRates (LUX lib) (WIMP lib) (Halo lib),
       CalcRates (SCDMS lib) (WIMP lib) (Halo lib), CalcRates (SIMPLE lib) (WIMP lib) (Halo lib)] @
      print_table lib @
      input_loop type lib cin' \<and>
    (\<forall>e\<in>set print_wimp. is_output e) \<and> print_wimp \<noteq> [] \<and>
    (\<forall>e\<in>set (print_table lib). is_output e) \<and>
    (\<forall>args. fst (snd (parse_args args TYPE_MFA)) = TYPE_MG \<or>
       fst (snd (parse_args args TYPE_MFA)) = TYPE_MFA)"
proof -
  have "input_loop type lib cin =
      out @ loop_body type lib (M, xpSI, xnSI, xpSD, xnSD) @ input_loop type lib cin'"
    using assms(1) by (rule input_loop_success)
  moreover have "TYPE_MG \<noteq> TYPE_MFA"
    by (simp add: TYPE_MG_def TYPE_MFA_def)
  ultimately have 1: "input_loop type lib cin =
      out @
      [Cout [],
       (if type = TYPE_MG then SetWIMP_mG (WIMP lib) M xpSI xnSI xpSD xnSD
        else SetWIMP_mfa (WIMP lib) M xpSI xnSI xpSD xnSD),
       GetWIMP_mfa (WIMP lib), GetWIMP_mG (WIMP lib)] @
      print_wimp @
      [CalcRates (XENON lib) (WIMP lib) (Halo lib), CalcRates (LUX lib) (WIMP lib) (Halo lib),
       CalcRates (SCDMS lib) (WIMP lib) (Halo lib), CalcRates (SIMPLE lib) (WIMP lib) (Halo lib)] @
      print_table lib @
      input_loop type lib cin'"
    using assms(2) by (auto simp: loop_body_def set_wimp_def calc_rates_def)
  have 2: "print_wimp \<noteq> []"
    by (simp add: print_wimp_def)
  have 3: "fst (snd (parse_args args TYPE_MFA)) = TYPE_MG \<or>
       fst (snd (parse_args args TYPE_MFA)) = TYPE_MFA" for args
    using parse_args_type [of args TYPE_MFA] by auto
  from 1 2 3 print_wimp_output print_table_output show ?thesis
    by blast
qed

theorem loop_iteration_call_order_witness:
  "GetWIMPParams TYPE_MFA ''100 4'' = (prompt TYPE_MFA, Some (100, 4, 4, 0, 0), []) \<and>
   input_loop TYPE_MFA \<lparr>Halo = 1, WIMP = 2, XENON = 3, LUX = 4, SCDMS = 5, SIMPLE = 6\<rparr> ''100 4'' =
     prompt TYPE_MFA @
     [Cout [], SetWIMP_mfa 2 100 4 4 0 0, GetWIMP_mfa 2, GetWIMP_mG 2] @
     print_wimp @
     [CalcRates 3 2 1, CalcRates 4 2 1, CalcRates 5 2 1, CalcRates 6 2 1] @
     print_table \<lparr>Halo = 1, WIMP = 2, XENON = 3, LUX = 4, SCDMS = 5, SIMPLE = 6\<rparr> @
     prompt TYPE_MFA"
proof -
  have g: "getline ''100 4'' = (''100 4'', [])"
    by (simp add: getline_def)
  have "fields_of_line (fst (getline ''100 4'')) = [100, 4]"
    using fields_two_tokens [OF blank_Nil token_100 separator_space token_4 blank_Nil]
    by (simp add: g)
  then have p: "GetWIMPParams TYPE_MFA ''100 4'' = (prompt TYPE_MFA, Some (100, 4, 4, 0, 0), [])"
    by (simp add: GetWIMPParams_fields g)
  have t: "TYPE_MFA = TYPE_MG \<or> TYPE_MFA = TYPE_MFA"
    by simp
  have n: "TYPE_MFA \<noteq> TYPE_MG"
    by (simp add: TYPE_MG_def TYPE_MFA_def)
  from loop_iteration_call_order [OF p t,
      of "\<lparr>Halo = 1, WIMP = 2, XENON = 3, LUX = 4, SCDMS = 5, SIMPLE = 6\<rparr>"] p n
  show ?thesis by (simp add: input_loop_eof)
qed

text \<open>
  The claim C7 as stated fails on the input line \<open>100 4\<close> in standard mode: the line
  with the WIMP mass is the event number 7 of the loop, the first rate calculation is the
  event number 13, and no rate calculation comes earlier.
\<close>

theorem wimp_block_printed_before_rates_counterexample:
  "input_loop TYPE_MFA \<lparr>Halo = 1, WIMP = 2, XENON = 3, LUX = 4, SCDMS = 5, SIMPLE = 6\<rparr> ''100 4'' ! 7 =
     Printf (''%s %- #12.5g'' @ nl) [Str ''WIMP mass [GeV]     '', Dbl ''M''] \<and>
   input_loop TYPE_MFA \<lparr>Halo = 1, WIMP = 2, XENON = 3, LUX = 4, SCDMS = 5, SIMPLE = 6\<rparr> ''100 4'' ! 13 =
     CalcRates 3 2 1 \<and>
   CalcRates 3 2 1 \<notin>
     set (take 13 (input_loop TYPE_MFA \<lparr>Halo = 1, WIMP = 2, XENON = 3, LUX = 4, SCDMS = 5, SIMPLE = 6\<rparr> ''100 4''))"
  unfolding input_loop_100_4
  by (simp add: prompt_def loop_body_def set_wimp_def print_wimp_def calc_rates_def
      TYPE_MFA_def TYPE_MG_def)

text \<open>
  Claim C8. Unless the program exits through \<open>--help\<close>, the run of \<open>main\<close> consists
  of the warnings of argument parsing, then the creation of one Halo handle, one WIMP handle
  and the four detector handles (XENON100 2012, LUX 2013, SuperCDMS 2014, SIMPLE 2014) in
  this order, then the input loop, then \<open>FreeAll\<close>. These six are the only creations of
  the run. Hence every \<open>CalcRates\<close> call of the run is preceded by the creation of the
  Halo handle, of the WIMP handle and of the detector handle it is given.
\<close>

theorem handles_created_before_rates:
  assumes "''--help'' \<notin> set (drop 1 argv)"
  shows "(\<exists>out type. (\<forall>e\<in>set out. is_output e) \<and>
        main lib argv cin =
          (out @
           [InitHalo (Halo lib), InitWIMP (WIMP lib), XENON100_2012_Init (XENON lib),
            LUX_2013_Init (LUX lib), SuperCDMS_2014_Init (SCDMS lib), SIMPLE_2014_Init (SIMPLE lib)] @
           input_loop type lib cin @ [FreeAll], 0)) \<and>
    filter is_creation (fst (main lib argv cin)) =
      [InitHalo (Halo lib), InitWIMP (WIMP lib), XENON100_2012_Init (XENON lib),
       LUX_2013_Init (LUX lib), SuperCDMS_2014_Init (SCDMS lib), SIMPLE_2014_Init (SIMPLE lib)] \<and>
    (\<forall>pre d w h post. fst (main lib argv cin) = pre @ CalcRates d w h # post \<longrightarrow>
       InitHalo h \<in> set pre \<and> InitWIMP w \<in> set pre \<and>
       (XENON100_2012_Init d \<in> set pre \<or> LUX_2013_Init d \<in> set pre \<or>
        SuperCDMS_2014_Init d \<in> set pre \<or> SIMPLE_2014_Init d \<in> set pre))"
proof -
  define out where "out = map warning (filter (\<lambda>a. a \<noteq> ''--mG'' \<and> a \<noteq> ''--mfa'') (drop 1 argv))"
  define type where "type = fst (snd (parse_args (drop 1 argv) TYPE_MFA))"
  have "parse_args (drop 1 argv) TYPE_MFA = (out, type, False)"
    using parse_args_warnings [OF assms, of TYPE_MFA] parse_args_exited [of "drop 1 argv" TYPE_MFA] assms
    by (simp add: out_def type_def prod_eq_iff)
  then have m: "main lib argv cin = (out @ session_init lib @ input_loop type lib cin @ [FreeAll], 0)"
    by (rule main_run)
  have o: "\<forall>e\<in>set out. is_output e"
    by (auto simp: out_def warning_def)
  then have oc: "filter is_creation out = []"
    by (auto simp: filter_empty_conv dest: output_not_creation)
  have 1: "\<exists>out type. (\<forall>e\<in>set out. is_output e) \<and>
        main lib argv cin =
          (out @
           [InitHalo (Halo lib), InitWIMP (WIMP lib), XENON100_2012_Init (XENON lib),
            LUX_2013_Init (LUX lib), SuperCDMS_2014_Init (SCDMS lib), SIMPLE_2014_Init (SIMPLE lib)] @
           input_loop type lib cin @ [FreeAll], 0)"
    using m o unfolding session_init_def by blast
  have 2: "filter is_creation (fst (main lib argv cin)) =
      [InitHalo (Halo lib), InitWIMP (WIMP lib), XENON100_2012_Init (XENON lib),
       LUX_2013_Init (LUX lib), SuperCDMS_2014_Init (SCDMS lib), SIMPLE_2014_Init (SIMPLE lib)]"
    by (simp add: m oc no_creation_input_loop session_init_def)
  have 3: "InitHalo h \<in> set pre \<and> InitWIMP w \<in> set pre \<and>
       (XENON100_2012_Init d \<in> set pre \<or> LUX_2013_Init d \<in> set pre \<or>
        SuperCDMS_2014_Init d \<in> set pre \<or> SIMPLE_2014_Init d \<in> set pre)"
    if t: "fst (main lib argv cin) = pre @ CalcRates d w h # post" for pre d w h post
  proof -
    have n: "CalcRates d w h \<notin> set (out @ session_init lib)"
      using o by (auto simp: session_init_def)
    from t m have "(out @ session_init lib) @ (input_loop type lib cin @ [FreeAll]) =
        pre @ CalcRates d w h # post"
      by simp
    from append_eq_later [OF this n]
    have s: "set (session_init lib) \<subseteq> set pre"
      and "CalcRates d w h \<in> set (input_loop type lib cin)"
      by auto
    from CalcRates_in_input_loop [OF this(2)] s show ?thesis
      by (auto simp: session_init_def)
  qed
  from 1 2 3 show ?thesis by blast
qed

theorem handles_created_before_rates_witness:
  "''--help'' \<notin> set (drop 1 [''DDCalc_exampleC'', ''--mfa'']) \<and>
   filter is_creation
     (fst (main \<lparr>Halo = 1, WIMP = 2, XENON = 3, LUX = 4, SCDMS = 5, SIMPLE = 6\<rparr>
        [''DDCalc_exampleC'', ''--mfa''] ''100 4'')) =
     [InitHalo 1, InitWIMP 2, XENON100_2012_Init 3, LUX_2013_Init 4, SuperCDMS_2014_Init 5,
      SIMPLE_2014_Init 6] \<and>
   fst (main \<lparr>Halo = 1, WIMP = 2, XENON = 3, LUX = 4, SCDMS = 5, SIMPLE = 6\<rparr>
        [''DDCalc_exampleC'', ''--mfa''] ''100 4'') =
     (session_init \<lparr>Halo = 1, WIMP = 2, XENON = 3, LUX = 4, SCDMS = 5, SIMPLE = 6\<rparr> @
      prompt TYPE_MFA @
      [Cout [], SetWIMP_mfa 2 100 4 4 0 0, GetWIMP_mfa 2, GetWIMP_mG 2] @ print_wimp) @
     CalcRates 3 2 1 #
     ([CalcRates 4 2 1, CalcRates 5 2 1, CalcRates 6 2 1] @
      print_table \<lparr>Halo = 1, WIMP = 2, XENON = 3, LUX = 4, SCDMS = 5, SIMPLE = 6\<rparr> @
      prompt TYPE_MFA @ [FreeAll]) \<and>
   InitHalo 1 \<in>
     set (session_init \<lparr>Halo = 1, WIMP = 2, XENON = 3, LUX = 4, SCDMS = 5, SIMPLE = 6\<rparr> @
      prompt TYPE_MFA @
      [Cout [], SetWIMP_mfa 2 100 4 4 0 0, GetWIMP_mfa 2, GetWIMP_mG 2] @ print_wimp)"
proof -
  let ?lib = "\<lparr>Halo = 1, WIMP = 2, XENON = 3, LUX = 4, SCDMS = 5, SIMPLE = 6\<rparr>"
  have h: "''--help'' \<notin> set (drop 1 [''DDCalc_exampleC'', ''--mfa''])"
    by simp
  have p: "parse_args (drop 1 [''DDCalc_exampleC'', ''--mfa'']) TYPE_MFA = ([], TYPE_MFA, False)"
    by simp
  have n: "TYPE_MFA \<noteq> TYPE_MG"
    by (simp add: TYPE_MG_def TYPE_MFA_def)
  have t: "fst (main ?lib [''DDCalc_exampleC'', ''--mfa''] ''100 4'') =
     (session_init ?lib @ prompt TYPE_MFA @
      [Cout [], SetWIMP_mfa 2 100 4 4 0 0, GetWIMP_mfa 2, GetWIMP_mG 2] @ print_wimp) @
     CalcRates 3 2 1 #
     ([CalcRates 4 2 1, CalcRates 5 2 1, CalcRates 6 2 1] @ print_table ?lib @
      prompt TYPE_MFA @ [FreeAll])"
    unfolding main_run [OF p] input_loop_100_4
    using n by (simp add: loop_body_def set_wimp_def calc_rates_def)
  note c = handles_created_before_rates [OF h, of ?lib "''100 4''"]
  from c have 2: "filter is_creation (fst (main ?lib [''DDCalc_exampleC'', ''--mfa''] ''100 4'')) =
     [InitHalo 1, InitWIMP 2, XENON100_2012_Init 3, LUX_2013_Init 4, SuperCDMS_2014_Init 5,
      SIMPLE_2014_Init 6]"
    by simp
  from c t have 3: "InitHalo 1 \<in>
     set (session_init ?lib @ prompt TYPE_MFA @
      [Cout [], SetWIMP_mfa 2 100 4 4 0 0, GetWIMP_mfa 2, GetWIMP_mG 2] @ print_wimp)"
    by blast
  from h 2 t 3 show ?thesis by blast
qed

text \<open>
  Claim C9. When the arguments contain both \<open>--mG\<close> and \<open>--mfa\<close>, the one that comes
  last decides the mode. The arguments are split at the last mode flag: no mode flag comes
  after it, and no \<open>--help\<close> before it. Then \<open>type\<close> holds the mode of that flag when
  the loop over the arguments is left, and without any \<open>--help\<close> the input loop runs in
  that mode. Each occurrence of a mode flag overwrites the mode, whatever it was.
\<close>

theorem last_mode_flag_wins:
  assumes "drop 1 argv = pre @ flag # post"
    and "flag = ''--mG'' \<or> flag = ''--mfa''"
    and "''--mG'' \<notin> set post" and "''--mfa'' \<notin> set post"
    and "''--help'' \<notin> set pre"
  shows "fst (snd (parse_args (drop 1 argv) TYPE_MFA)) = (if flag = ''--mG'' then TYPE_MG else TYPE_MFA) \<and>
    (''--help'' \<notin> set post \<longrightarrow>
       main lib argv cin =
         (map warning (filter (\<lambda>a. a \<noteq> ''--mG'' \<and> a \<noteq> ''--mfa'') (drop 1 argv)) @ session_init lib @
          input_loop (if flag = ''--mG'' then TYPE_MG else TYPE_MFA) lib cin @ [FreeAll], 0)) \<and>
    parse_args (''--mG'' # args) t = parse_args args TYPE_MG \<and>
    parse_args (''--mfa'' # args) t = parse_args args TYPE_MFA"
proof -
  let ?m = "if flag = ''--mG'' then TYPE_MG else TYPE_MFA"
  have "parse_args (flag # post) t' = parse_args post ?m" for t'
    using assms(2) by auto
  then have "fst (snd (parse_args (flag # post) t')) = ?m" for t'
    using parse_args_no_flag [OF assms(3,4), of ?m] by simp
  then have a: "fst (snd (parse_args (drop 1 argv) TYPE_MFA)) = ?m"
    unfolding assms(1) parse_args_append [OF assms(5)] snd_conv by simp
  have b: "main lib argv cin =
         (map warning (filter (\<lambda>a. a \<noteq> ''--mG'' \<and> a \<noteq> ''--mfa'') (drop 1 argv)) @ session_init lib @
          input_loop ?m lib cin @ [FreeAll], 0)" if "''--help'' \<notin> set post"
  proof -
    from that assms(1,2,5) have h: "''--help'' \<notin> set (drop 1 argv)" by auto
    then have "\<not> snd (snd (parse_args (drop 1 argv) TYPE_MFA))"
      by (simp add: parse_args_exited)
    with a parse_args_warnings [OF h, of TYPE_MFA] show ?thesis
      by (simp add: main_def case_prod_beta)
  qed
  from a b show ?thesis by simp
qed

theorem last_mode_flag_wins_witness:
  "fst (snd (parse_args (drop 1 [''DDCalc_exampleC'', ''--mfa'', ''-v'', ''--mG'']) TYPE_MFA)) = TYPE_MG \<and>
   fst (snd (parse_args (drop 1 [''DDCalc_exampleC'', ''--mG'', ''--mfa'', ''-v'']) TYPE_MFA)) = TYPE_MFA \<and>
   main \<lparr>Halo = 1, WIMP = 2, XENON = 3, LUX = 4, SCDMS = 5, SIMPLE = 6\<rparr>
     [''DDCalc_exampleC'', ''--mfa'', ''-v'', ''--mG''] [] =
     ([warning ''-v''] @ session_init \<lparr>Halo = 1, WIMP = 2, XENON = 3, LUX = 4, SCDMS = 5, SIMPLE = 6\<rparr> @
      prompt TYPE_MG @ [FreeAll], 0)"
proof -
  have a: "drop 1 [''DDCalc_exampleC'', ''--mfa'', ''-v'', ''--mG''] = [''--mfa'', ''-v''] @ ''--mG'' # []"
    and b: "drop 1 [''DDCalc_exampleC'', ''--mG'', ''--mfa'', ''-v''] = [''--mG''] @ ''--mfa'' # [''-v'']"
    by simp_all
  from last_mode_flag_wins [OF a, of "\<lparr>Halo = 1, WIMP = 2, XENON = 3, LUX = 4, SCDMS = 5, SIMPLE = 6\<rparr>" "[]"]
    last_mode_flag_wins [OF b]
  show ?thesis by (simp add: input_loop_eof)
qed

text \<open>
  Claim C10, as amended. The claim says that every input line with more than five
  white-space separated tokens still succeeds; a line whose first or second field cannot be
  read fails, however many tokens it has. For every input line with more than five tokens,
  GetWIMPParams looks at the first five only and ignores all that follows them: its result,
  success or failure, is the result for the line cut after the fifth token, the
  corresponding five-field line. When that line has the five numeric fields \<open>v1\<close> to
  \<open>v5\<close>, and in particular when the line starts with five numeric tokens, each followed
  by a separator, the long line succeeds with exactly these five values.
\<close>

theorem GetWIMPParams_ignores_extra_tokens:
  assumes "5 < ntok (fst (getline cin))"
  shows "fst (snd (GetWIMPParams type cin)) =
      fst (snd (GetWIMPParams type (first_tokens 5 (fst (getline cin))))) \<and>
    (fields_of_line (first_tokens 5 (fst (getline cin))) = [v1, v2, v3, v4, v5] \<longrightarrow>
       GetWIMPParams type cin = (prompt type, Some (v1, v2, v3, v4, v5), snd (getline cin))) \<and>
    (fst (getline cin) = sp0 @ tokens_text ts @ extra \<and> blank sp0 \<and>
     numeric_tokens ts [v1, v2, v3, v4, v5] \<longrightarrow>
       GetWIMPParams type cin = (prompt type, Some (v1, v2, v3, v4, v5), snd (getline cin)))"
proof -
  let ?line = "fst (getline cin)"
  from first_tokens_split [of 5 ?line] assms obtain c w where
    l: "?line = first_tokens 5 ?line @ c # w"
    by auto
  have "CHR 0x0A \<notin> set ?line"
    by (rule getline_no_newline)
  then have "CHR 0x0A \<notin> set (first_tokens 5 ?line)"
    by (subst (asm) l) simp
  then have g: "getline (first_tokens 5 ?line) = (first_tokens 5 ?line, [])"
    by (rule getline_whole)
  have p: "parse_input_line ?line = parse_input_line (first_tokens 5 ?line)"
    using assms by (rule parse_input_line_first_tokens)
  have a: "fst (snd (GetWIMPParams type cin)) =
      fst (snd (GetWIMPParams type (first_tokens 5 ?line)))"
    by (simp add: GetWIMPParams_def case_prod_beta g p)
  have b: "GetWIMPParams type cin = (prompt type, Some (v1, v2, v3, v4, v5), snd (getline cin))"
    if "fields_of_line (first_tokens 5 ?line) = [v1, v2, v3, v4, v5]"
  proof -
    from that have "parse_input_line (first_tokens 5 ?line) = Some (v1, v2, v3, v4, v5)"
      by (simp add: parse_input_line_default_fill)
    with p have "parse_input_line ?line = Some (v1, v2, v3, v4, v5)"
      by simp
    then show ?thesis
      by (simp add: GetWIMPParams_def case_prod_beta)
  qed
  have c: "GetWIMPParams type cin = (prompt type, Some (v1, v2, v3, v4, v5), snd (getline cin))"
    if "?line = sp0 @ tokens_text ts @ extra" "blank sp0" "numeric_tokens ts [v1, v2, v3, v4, v5]"
  proof -
    from fields_tokens_extra [OF that(2,3), of extra] that(1)
    obtain others where "fields_of_line ?line = [v1, v2, v3, v4, v5] @ others"
      by auto
    then show ?thesis
      by (simp add: GetWIMPParams_fields)
  qed
  from a b c show ?thesis by blast
qed

theorem GetWIMPParams_ignores_extra_tokens_witness:
  "5 < ntok (fst (getline ''1 2 3 4 5 6 seven'')) \<and>
   first_tokens 5 (fst (getline ''1 2 3 4 5 6 seven'')) = ''1 2 3 4 5'' \<and>
   GetWIMPParams TYPE_MFA ''1 2 3 4 5 6 seven'' = (prompt TYPE_MFA, Some (1, 2, 3, 4, 5), []) \<and>
   fst (snd (GetWIMPParams TYPE_MFA ''1 2 3 4 5 6 seven'')) =
     fst (snd (GetWIMPParams TYPE_MFA ''1 2 3 4 5''))"
proof -
  have g: "getline ''1 2 3 4 5 6 seven'' = (''1 2 3 4 5 6 seven'', [])"
    by (simp add: getline_def)
  have n: "5 < ntok (fst (getline ''1 2 3 4 5 6 seven''))"
    by (simp add: g ntok_def isspace_def)
  have t: "first_tokens 5 (fst (getline ''1 2 3 4 5 6 seven'')) = ''1 2 3 4 5''"
    by (simp add: g first_tokens_def isspace_def)
  have f: "fields_of_line (first_tokens 5 (fst (getline ''1 2 3 4 5 6 seven''))) = [1, 2, 3, 4, 5]"
    using fields_tokens_last [OF blank_Nil tokens_1234 token_5 blank_Nil] by (simp add: t)
  note c = GetWIMPParams_ignores_extra_tokens [OF n, of TYPE_MFA 1 2 3 4 5]
  from c have a: "fst (snd (GetWIMPParams TYPE_MFA ''1 2 3 4 5 6 seven'')) =
      fst (snd (GetWIMPParams TYPE_MFA (first_tokens 5 (fst (getline ''1 2 3 4 5 6 seven'')))))"
    by blast
  from c f have b: "GetWIMPParams TYPE_MFA ''1 2 3 4 5 6 seven'' =
      (prompt TYPE_MFA, Some (1, 2, 3, 4, 5), snd (getline ''1 2 3 4 5 6 seven''))"
    by blast
  from a b n t show ?thesis by (simp add: g)
qed

text \<open>
  The claim C10 as stated fails on the line \<open>x 2 3 4 5 6\<close>: it has six tokens, and
  GetWIMPParams returns failure because the first field cannot be read.
\<close>

theorem extra_tokens_unreadable_first_counterexample:
  "5 < ntok (fst (getline ''x 2 3 4 5 6'')) \<and>
   GetWIMPParams TYPE_MFA ''x 2 3 4 5 6'' = (prompt TYPE_MFA, None, [])"
proof -
  have g: "getline ''x 2 3 4 5 6'' = (''x 2 3 4 5 6'', [])"
    by (simp add: getline_def)
  have n: "5 < ntok (fst (getline ''x 2 3 4 5 6''))"
    by (simp add: g ntok_def isspace_def)
  have e: "numeric_tokens [] []"
    by simp
  have "fields_of_line (fst (getline ''x 2 3 4 5 6'')) = []"
    using fields_tokens_no_number [OF blank_Nil e no_number_x_line] by (simp add: g)
  then have "GetWIMPParams TYPE_MFA ''x 2 3 4 5 6'' = (prompt TYPE_MFA, None, [])"
    by (simp add: GetWIMPParams_fields g)
  with n show ?thesis by simp
qed

end
